theory Spec2Isabelle
  imports Main
begin

section \<open>Exceptions\<close>

text \<open>
  The Python exceptions that the modelled code raises or lets through, as values.
  \<open>RpcError\<close> stands for \<open>grpc.RpcError\<close> (the payload identifies the failure),
  \<open>ValueError\<close> is what \<open>list.remove\<close> raises for an absent element,
  \<open>AttributeError\<close> carries its message, \<open>UnsatisfiedDriverVersionError\<close> carries its
  \<open>args\<close> tuple, \<open>InvalidRequirement\<close> and \<open>InvalidVersion\<close> are the parse failures of the
  \<open>packaging\<close> library, and \<open>OtherError\<close> is any other exception of an analyzer.
\<close>

datatype exn_arg =
    ArgList "(string \<times> string) list"
  | ArgPair "string \<times> string"

datatype exn =
    RpcError string
  | ValueError
  | AttributeError string
  | UnsatisfiedDriverVersionError "exn_arg list"
  | InvalidRequirement string
  | InvalidVersion string
  | OtherError string

section \<open>Connection session: \<open>DataService\<close>\<close>

text \<open>
  Threads and channels are known by their identity. A stub is bound to the channel it was
  constructed from. \<open>thread_local\<close> is the namespace that \<open>threading.local()\<close> gives one
  thread: \<open>getattr(local, name, None)\<close> of an attribute never set is \<open>None\<close>.
\<close>

type_synonym thread = nat
type_synonym channel = nat

datatype data_stub = DataStub channel
datatype bblfsh_stub = ProtocolServiceStub channel

record thread_local =
  channel :: "channel option"
  data_stub :: "data_stub option"
  bblfsh_stub :: "bblfsh_stub option"

definition threading_local :: "thread \<Rightarrow> thread_local" where
  "threading_local = (\<lambda>t. \<lparr>channel = None, data_stub = None, bblfsh_stub = None\<rparr>)"

text \<open>
  The three attributes set by \<open>DataService.__init__\<close>, extended by the state of the gRPC
  runtime that the session acts on: the identity the next created channel gets, the log of
  channel creations (channel and creating thread) and the log of \<open>channel.close()\<close> calls.
\<close>

record data_service =
  data_request_local :: "thread \<Rightarrow> thread_local"
  data_request_channels :: "channel list"
  data_request_address :: string

record world = data_service +
  next_channel :: channel
  opened :: "(channel \<times> thread) list"
  closed :: "channel list"

definition DataService_init :: "string \<Rightarrow> world" where
  "DataService_init address =
     \<lparr>data_request_local = threading_local,
      data_request_channels = [],
      data_request_address = address,
      next_channel = 0, opened = [], closed = []\<rparr>"

text \<open>
  \<open>create_channel(address)\<close> of the SDK returns a new channel object, \<open>channel.close()\<close>
  closes one; \<open>set_local\<close> is an attribute assignment on the calling thread's namespace.
\<close>

definition create_channel :: "thread \<Rightarrow> world \<Rightarrow> channel \<times> world" where
  "create_channel t w =
     (next_channel w,
      w\<lparr>next_channel := Suc (next_channel w), opened := opened w @ [(next_channel w, t)]\<rparr>)"

definition channel_close :: "channel \<Rightarrow> world \<Rightarrow> world" where
  "channel_close c w = w\<lparr>closed := closed w @ [c]\<rparr>"

definition set_local :: "thread \<Rightarrow> (thread_local \<Rightarrow> thread_local) \<Rightarrow> world \<Rightarrow> world" where
  "set_local t f w = w\<lparr>data_request_local := (data_request_local w)(t := f (data_request_local w t))\<rparr>"

definition get_channel :: "thread \<Rightarrow> world \<Rightarrow> channel \<times> world" where
  "get_channel t w =
     (case channel (data_request_local w t) of
        None \<Rightarrow>
          (let (c, w1) = create_channel t w;
               w2 = set_local t (\<lambda>l. l\<lparr>channel := Some c\<rparr>) w1;
               w3 = w2\<lparr>data_request_channels := data_request_channels w2 @ [c]\<rparr>
           in (c, w3))
      | Some c \<Rightarrow> (c, w))"

definition get_data :: "thread \<Rightarrow> world \<Rightarrow> data_stub \<times> world" where
  "get_data t w =
     (case data_stub (data_request_local w t) of
        None \<Rightarrow>
          (let (c, w1) = get_channel t w;
               stub = DataStub c
           in (stub, set_local t (\<lambda>l. l\<lparr>data_stub := Some stub\<rparr>) w1))
      | Some stub \<Rightarrow> (stub, w))"

definition get_bblfsh :: "thread \<Rightarrow> world \<Rightarrow> bblfsh_stub \<times> world" where
  "get_bblfsh t w =
     (case bblfsh_stub (data_request_local w t) of
        None \<Rightarrow>
          (let (c, w1) = get_channel t w;
               stub = ProtocolServiceStub c
           in (stub, set_local t (\<lambda>l. l\<lparr>bblfsh_stub := Some stub\<rparr>) w1))
      | Some stub \<Rightarrow> (stub, w))"

definition shutdown :: "world \<Rightarrow> world" where
  "shutdown w =
     (let w1 = foldl (\<lambda>v c. channel_close c v) w (data_request_channels w);
          w2 = w1\<lparr>data_request_channels := []\<rparr>
      in w2\<lparr>data_request_local := threading_local\<rparr>)"

definition close_channel :: "thread \<Rightarrow> world \<Rightarrow> (exn + unit) \<times> world" where
  "close_channel t w =
     (case channel (data_request_local w t) of
        None \<Rightarrow> (Inr (), w)
      | Some c \<Rightarrow>
          if c \<in> set (data_request_channels w) then
            (let w1 = w\<lparr>data_request_channels := remove1 c (data_request_channels w)\<rparr>;
                 w2 = set_local t (\<lambda>l. l\<lparr>channel := None\<rparr>) w1;
                 w3 = set_local t (\<lambda>l. l\<lparr>data_stub := None\<rparr>) w2;
                 w4 = set_local t (\<lambda>l. l\<lparr>bblfsh_stub := None\<rparr>) w3
             in (Inr (), channel_close c w4))
          else (Inl ValueError, w))"

text \<open>
  \<open>close_channel\<close> in its two parts: the read of the slot (the first statement) and the
  statements that follow it, which act on the channel that was read. Nothing in the class
  holds a lock, so another thread can run between the two.
\<close>

definition close_channel_read :: "thread \<Rightarrow> world \<Rightarrow> channel option" where
  "close_channel_read t w = channel (data_request_local w t)"

definition close_channel_rest :: "thread \<Rightarrow> channel option \<Rightarrow> world \<Rightarrow> (exn + unit) \<times> world" where
  "close_channel_rest t read w =
     (case read of
        None \<Rightarrow> (Inr (), w)
      | Some c \<Rightarrow>
          if c \<in> set (data_request_channels w) then
            (let w1 = w\<lparr>data_request_channels := remove1 c (data_request_channels w)\<rparr>;
                 w2 = set_local t (\<lambda>l. l\<lparr>channel := None\<rparr>) w1;
                 w3 = set_local t (\<lambda>l. l\<lparr>data_stub := None\<rparr>) w2;
                 w4 = set_local t (\<lambda>l. l\<lparr>bblfsh_stub := None\<rparr>) w3
             in (Inr (), channel_close c w4))
          else (Inl ValueError, w))"

section \<open>Request composer\<close>

text \<open>
  A response stream of the data service: the records it delivers, in order, and the
  transport failure that ends it, if any. \<open>map(f, stream)\<close> of Python converts record by
  record and passes the failure on.
\<close>

record 'a stream =
  records :: "'a list"
  failure :: "exn option"

definition map_stream :: "('a \<Rightarrow> 'a) \<Rightarrow> 'a stream \<Rightarrow> 'a stream" where
  "map_stream f s = s\<lparr>records := map f (records s)\<rparr>"

record 'p files_request =
  revision :: 'p
  exclude_pattern :: string
  exclude_vendored :: bool
  want_contents :: bool
  want_language :: bool
  want_uast :: bool

record 'p changes_request =
  base :: 'p
  head :: 'p
  c_exclude_pattern :: string
  c_exclude_vendored :: bool
  c_want_contents :: bool
  c_want_language :: bool
  c_want_uast :: bool

text \<open>
  \<open>request_changes\<close> and \<open>request_files\<close>. The constant \<open>GARBAGE_PATTERN\<close>, the converter
  (\<open>BytesToUnicodeConverter.convert_change\<close>, \<open>convert_file\<close>) and the stub's method
  (\<open>stub.GetChanges\<close>, \<open>stub.GetFiles\<close>) are parameters; a pointer stands for its
  protocol-buffer form \<open>ptr.to_pb()\<close>. \<open>changes_request_of\<close> and \<open>files_request_of\<close> are
  the statements that construct and fill the request, up to the call of the stub.
\<close>

definition changes_request_of :: "string \<Rightarrow> 'p \<Rightarrow> 'p \<Rightarrow> bool \<Rightarrow> bool \<Rightarrow> 'p changes_request" where
  "changes_request_of GARBAGE_PATTERN ptr_from ptr_to contents uast =
     (let request = \<lparr>base = ptr_from, head = ptr_to, c_exclude_pattern = [],
                      c_exclude_vendored = False, c_want_contents = False,
                      c_want_language = False, c_want_uast = False\<rparr>;
          request = request\<lparr>c_exclude_pattern := GARBAGE_PATTERN\<rparr>;
          request = request\<lparr>c_exclude_vendored := True\<rparr>;
          request = request\<lparr>c_want_contents := contents\<rparr>;
          request = request\<lparr>c_want_language := (contents \<or> uast)\<rparr>;
          request = request\<lparr>c_want_uast := uast\<rparr>
      in request)"

definition request_changes ::
  "string \<Rightarrow> ('c \<Rightarrow> 'c) \<Rightarrow> ('p changes_request \<Rightarrow> 'c stream) \<Rightarrow> 'p \<Rightarrow> 'p \<Rightarrow> bool \<Rightarrow> bool \<Rightarrow> bool
     \<Rightarrow> 'c stream" where
  "request_changes GARBAGE_PATTERN convert_change GetChanges ptr_from ptr_to contents uast unicode =
     (let request = changes_request_of GARBAGE_PATTERN ptr_from ptr_to contents uast;
          changes = GetChanges request;
          changes = (if unicode then map_stream convert_change changes else changes)
      in changes)"

definition files_request_of :: "string \<Rightarrow> 'p \<Rightarrow> bool \<Rightarrow> bool \<Rightarrow> 'p files_request" where
  "files_request_of GARBAGE_PATTERN ptr contents uast =
     (let request = \<lparr>revision = ptr, exclude_pattern = [], exclude_vendored = False,
                      want_contents = False, want_language = False, want_uast = False\<rparr>;
          request = request\<lparr>exclude_pattern := GARBAGE_PATTERN\<rparr>;
          request = request\<lparr>exclude_vendored := True\<rparr>;
          request = request\<lparr>want_contents := contents\<rparr>;
          request = request\<lparr>want_language := (contents \<or> uast)\<rparr>;
          request = request\<lparr>want_uast := uast\<rparr>
      in request)"

definition request_files ::
  "string \<Rightarrow> ('f \<Rightarrow> 'f) \<Rightarrow> ('p files_request \<Rightarrow> 'f stream) \<Rightarrow> 'p \<Rightarrow> bool \<Rightarrow> bool \<Rightarrow> bool
     \<Rightarrow> 'f stream" where
  "request_files GARBAGE_PATTERN convert_file GetFiles ptr contents uast unicode =
     (let request = files_request_of GARBAGE_PATTERN ptr contents uast;
          files = GetFiles request;
          files = (if unicode then map_stream convert_file files else files)
      in files)"

section \<open>Decorators and the error wrapper\<close>

text \<open>
  \<open>_handle_rpc_errors\<close>. The wrapped function is a computation on the world that returns
  a value or raises; the calling thread, implicit in Python, is the first argument.
  \<open>raise e from None\<close> raises the exception \<open>e\<close> that was caught; if \<open>close_channel\<close>
  itself raises, that exception leaves the handler instead.
\<close>

definition handle_rpc_errors ::
  "thread \<Rightarrow> (world \<Rightarrow> (exn + 'r) \<times> world) \<Rightarrow> world \<Rightarrow> (exn + 'r) \<times> world" where
  "handle_rpc_errors t func w =
     (case func w of
        (Inl (RpcError e), w1) \<Rightarrow>
          (case close_channel t w1 of
             (Inl e2, w2) \<Rightarrow> (Inl e2, w2)
           | (Inr u, w2) \<Rightarrow> (Inl (RpcError e), w2))
      | (r, w1) \<Rightarrow> (r, w1))"

text \<open>
  The six decorator factories. \<open>func\<close> is the decorated analyzer method, applied to the
  pointers (and configuration) and the stream passed as \<open>changes\<close> or \<open>files\<close>;
  \<open>GetChanges\<close> and \<open>GetFiles\<close> give the method of a stub, so the data service is a
  parameter.
\<close>

definition with_changed_uasts ::
  "string \<Rightarrow> ('c \<Rightarrow> 'c) \<Rightarrow> (data_stub \<Rightarrow> 'p changes_request \<Rightarrow> 'c stream) \<Rightarrow> bool
     \<Rightarrow> ('p \<Rightarrow> 'p \<Rightarrow> 'c stream \<Rightarrow> world \<Rightarrow> (exn + 'r) \<times> world)
     \<Rightarrow> thread \<Rightarrow> 'p \<Rightarrow> 'p \<Rightarrow> world \<Rightarrow> (exn + 'r) \<times> world" where
  "with_changed_uasts G cc GetChanges unicode func t ptr_from ptr_to =
     handle_rpc_errors t (\<lambda>w.
       let (stub, w1) = get_data t w;
           changes = request_changes G cc (GetChanges stub) ptr_from ptr_to False True unicode
       in func ptr_from ptr_to changes w1)"

definition with_changed_contents ::
  "string \<Rightarrow> ('c \<Rightarrow> 'c) \<Rightarrow> (data_stub \<Rightarrow> 'p changes_request \<Rightarrow> 'c stream) \<Rightarrow> bool
     \<Rightarrow> ('p \<Rightarrow> 'p \<Rightarrow> 'c stream \<Rightarrow> world \<Rightarrow> (exn + 'r) \<times> world)
     \<Rightarrow> thread \<Rightarrow> 'p \<Rightarrow> 'p \<Rightarrow> world \<Rightarrow> (exn + 'r) \<times> world" where
  "with_changed_contents G cc GetChanges unicode func t ptr_from ptr_to =
     handle_rpc_errors t (\<lambda>w.
       let (stub, w1) = get_data t w;
           changes = request_changes G cc (GetChanges stub) ptr_from ptr_to True False unicode
       in func ptr_from ptr_to changes w1)"

definition with_changed_uasts_and_contents ::
  "string \<Rightarrow> ('c \<Rightarrow> 'c) \<Rightarrow> (data_stub \<Rightarrow> 'p changes_request \<Rightarrow> 'c stream) \<Rightarrow> bool
     \<Rightarrow> ('p \<Rightarrow> 'p \<Rightarrow> 'c stream \<Rightarrow> world \<Rightarrow> (exn + 'r) \<times> world)
     \<Rightarrow> thread \<Rightarrow> 'p \<Rightarrow> 'p \<Rightarrow> world \<Rightarrow> (exn + 'r) \<times> world" where
  "with_changed_uasts_and_contents G cc GetChanges unicode func t ptr_from ptr_to =
     handle_rpc_errors t (\<lambda>w.
       let (stub, w1) = get_data t w;
           changes = request_changes G cc (GetChanges stub) ptr_from ptr_to True True unicode
       in func ptr_from ptr_to changes w1)"

definition with_uasts ::
  "string \<Rightarrow> ('f \<Rightarrow> 'f) \<Rightarrow> (data_stub \<Rightarrow> 'p files_request \<Rightarrow> 'f stream) \<Rightarrow> bool
     \<Rightarrow> ('p \<Rightarrow> 'cfg \<Rightarrow> 'f stream \<Rightarrow> world \<Rightarrow> (exn + 'r) \<times> world)
     \<Rightarrow> thread \<Rightarrow> 'p \<Rightarrow> 'cfg \<Rightarrow> world \<Rightarrow> (exn + 'r) \<times> world" where
  "with_uasts G cf GetFiles unicode func t ptr config =
     handle_rpc_errors t (\<lambda>w.
       let (stub, w1) = get_data t w;
           files = request_files G cf (GetFiles stub) ptr False True unicode
       in func ptr config files w1)"

definition with_contents ::
  "string \<Rightarrow> ('f \<Rightarrow> 'f) \<Rightarrow> (data_stub \<Rightarrow> 'p files_request \<Rightarrow> 'f stream) \<Rightarrow> bool
     \<Rightarrow> ('p \<Rightarrow> 'cfg \<Rightarrow> 'f stream \<Rightarrow> world \<Rightarrow> (exn + 'r) \<times> world)
     \<Rightarrow> thread \<Rightarrow> 'p \<Rightarrow> 'cfg \<Rightarrow> world \<Rightarrow> (exn + 'r) \<times> world" where
  "with_contents G cf GetFiles unicode func t ptr config =
     handle_rpc_errors t (\<lambda>w.
       let (stub, w1) = get_data t w;
           files = request_files G cf (GetFiles stub) ptr True False unicode
       in func ptr config files w1)"

definition with_uasts_and_contents ::
  "string \<Rightarrow> ('f \<Rightarrow> 'f) \<Rightarrow> (data_stub \<Rightarrow> 'p files_request \<Rightarrow> 'f stream) \<Rightarrow> bool
     \<Rightarrow> ('p \<Rightarrow> 'cfg \<Rightarrow> 'f stream \<Rightarrow> world \<Rightarrow> (exn + 'r) \<times> world)
     \<Rightarrow> thread \<Rightarrow> 'p \<Rightarrow> 'cfg \<Rightarrow> world \<Rightarrow> (exn + 'r) \<times> world" where
  "with_uasts_and_contents G cf GetFiles unicode func t ptr config =
     handle_rpc_errors t (\<lambda>w.
       let (stub, w1) = get_data t w;
           files = request_files G cf (GetFiles stub) ptr True True unicode
       in func ptr config files w1)"

section \<open>Driver version check\<close>

text \<open>
  The \<open>packaging\<close> library is a parameter: \<open>Requirement\<close> parses a requirement string into
  its name and specifier or raises, \<open>Version\<close> parses a version or raises,
  \<open>specifier_contains s v\<close> is \<open>v in s\<close>, and the two \<open>str\<close> functions are what \<open>%s\<close>
  formats. A driver is an entry of the \<open>SupportedLanguages\<close> response.
\<close>

record ('v, 's) packaging =
  Requirement :: "string \<Rightarrow> exn + (string \<times> 's)"
  Version :: "string \<Rightarrow> exn + 'v"
  specifier_contains :: "'s \<Rightarrow> 'v \<Rightarrow> bool"
  str_specifier :: "'s \<Rightarrow> string"
  str_version :: "'v \<Rightarrow> string"

record driver =
  language :: string
  version :: string

text \<open>
  \<open>UnsatisfiedDriverVersionError(mismatched)\<close>: \<open>args\<close> is \<open>(mismatched,)\<close> when
  \<open>__init__\<close> starts, and \<open>__init__\<close> appends every pair of \<open>mismatched\<close> to it.
\<close>

definition UnsatisfiedDriverVersionError_init :: "(string \<times> string) list \<Rightarrow> exn" where
  "UnsatisfiedDriverVersionError_init mismatched =
     UnsatisfiedDriverVersionError ([ArgList mismatched] @ map ArgPair mismatched)"

text \<open>The dictionary comprehension: a later driver of the same language replaces an earlier one.\<close>

fun existing_versions ::
  "(string \<Rightarrow> exn + 'v) \<Rightarrow> driver list \<Rightarrow> (string \<rightharpoonup> 'v) \<Rightarrow> exn + (string \<rightharpoonup> 'v)" where
  "existing_versions V [] m = Inr m"
| "existing_versions V (d # ds) m =
     (case V (version d) of
        Inl e \<Rightarrow> Inl e
      | Inr v \<Rightarrow> existing_versions V ds (m(language d \<mapsto> v)))"

text \<open>The loop over the requirement strings, with the list \<open>mismatched\<close> as accumulator.\<close>

fun collect_mismatched ::
  "('v, 's) packaging \<Rightarrow> (string \<rightharpoonup> 'v) \<Rightarrow> string list \<Rightarrow> (string \<times> string) list
     \<Rightarrow> exn + (string \<times> string) list" where
  "collect_mismatched P existing [] mismatched = Inr mismatched"
| "collect_mismatched P existing (reqstr # versions) mismatched =
     (case Requirement P reqstr of
        Inl e \<Rightarrow> Inl e
      | Inr (name, specifier) \<Rightarrow>
          (case existing name of
             None \<Rightarrow>
               collect_mismatched P existing versions
                 (mismatched @ [(name, ''not installed, but required '' @ str_specifier P specifier)])
           | Some ver \<Rightarrow>
               if \<not> specifier_contains P specifier ver then
                 collect_mismatched P existing versions
                   (mismatched @
                     [(name, str_version P ver @ '' does not satisfy '' @ str_specifier P specifier)])
               else collect_mismatched P existing versions mismatched))"

definition check_bblfsh_driver_versions ::
  "('v, 's) packaging \<Rightarrow> (bblfsh_stub \<Rightarrow> exn + driver list) \<Rightarrow> thread \<Rightarrow> string list \<Rightarrow> world
     \<Rightarrow> (exn + unit) \<times> world" where
  "check_bblfsh_driver_versions P SupportedLanguages t versions w =
     (let (stub, w1) = get_bblfsh t w in
      case SupportedLanguages stub of
        Inl e \<Rightarrow> (Inl e, w1)
      | Inr languages \<Rightarrow>
          (case existing_versions (Version P) languages Map.empty of
             Inl e \<Rightarrow> (Inl e, w1)
           | Inr existing \<Rightarrow>
               (case collect_mismatched P existing versions [] of
                  Inl e \<Rightarrow> (Inl e, w1)
                | Inr mismatched \<Rightarrow>
                    if mismatched \<noteq> [] then (Inl (UnsatisfiedDriverVersionError_init mismatched), w1)
                    else (Inr (), w1))))"

text \<open>
  The requirements the check is specified to report, in the words of the specification: a
  requirement is unmet when its language is missing or the installed version is outside the
  required range; \<open>mismatch_of\<close> is the report of one unmet requirement.
\<close>

definition unmet :: "('v, 's) packaging \<Rightarrow> (string \<rightharpoonup> 'v) \<Rightarrow> string \<Rightarrow> bool" where
  "unmet P existing reqstr =
     (case Requirement P reqstr of
        Inl e \<Rightarrow> False
      | Inr (name, specifier) \<Rightarrow>
          (case existing name of
             None \<Rightarrow> True
           | Some ver \<Rightarrow> \<not> specifier_contains P specifier ver))"

definition mismatch_of :: "('v, 's) packaging \<Rightarrow> (string \<rightharpoonup> 'v) \<Rightarrow> string \<Rightarrow> string \<times> string" where
  "mismatch_of P existing reqstr =
     (case Requirement P reqstr of
        Inl e \<Rightarrow> ([], [])
      | Inr (name, specifier) \<Rightarrow>
          (case existing name of
             None \<Rightarrow> (name, ''not installed, but required '' @ str_specifier P specifier)
           | Some ver \<Rightarrow>
               (name, str_version P ver @ '' does not satisfy '' @ str_specifier P specifier)))"

text \<open>
  The mapping from language name to installed version that the check is specified to build
  from the service's answer: the version of the last driver listed for the language.
\<close>

definition installed :: "('v, 's) packaging \<Rightarrow> driver list \<Rightarrow> (string \<rightharpoonup> 'v)" where
  "installed P languages name =
     (case filter (\<lambda>d. language d = name) languages of
        [] \<Rightarrow> None
      | d # ds \<Rightarrow>
          (case Version P (version (last (d # ds))) of
             Inl e \<Rightarrow> None
           | Inr v \<Rightarrow> Some v))"

text \<open>
  A small instance of the library for examples: a version is its text with the numbers
  parsed from it, compared position by position; a specifier is its text with its operator
  and version.
\<close>

fun version_le :: "nat list \<Rightarrow> nat list \<Rightarrow> bool" where
  "version_le [] ys = True"
| "version_le (x # xs) [] = (x = 0 \<and> version_le xs [])"
| "version_le (x # xs) (y # ys) = (x < y \<or> (x = y \<and> version_le xs ys))"

definition example_packaging ::
  "(string \<times> nat list, string \<times> string \<times> nat list) packaging" where
  "example_packaging =
     \<lparr>Requirement = (\<lambda>s.
        if s = ''python>=2.0.0'' then Inr (''python'', (''>=2.0.0'', ''>='', [2, 0, 0]))
        else if s = ''go==1.0.0'' then Inr (''go'', (''==1.0.0'', ''=='', [1, 0, 0]))
        else Inl (InvalidRequirement s)),
      Version = (\<lambda>s.
        if s = ''1.9.0'' then Inr (s, [1, 9, 0])
        else if s = ''1.0.0'' then Inr (s, [1, 0, 0])
        else Inl (InvalidVersion s)),
      specifier_contains = (\<lambda>(text, op, v) (vtext, ver).
        if op = ''=='' then ver = v else version_le v ver),
      str_specifier = (\<lambda>(text, op, v). text),
      str_version = (\<lambda>(vtext, ver). vtext)\<rparr>"

section \<open>Call sequences on a session\<close>

text \<open>
  The calls threads make on one session, and the end of a thread: when a thread exits, its
  \<open>threading.local\<close> namespace goes with it, while the channel it opened stays in the
  registry. \<open>run\<close> performs a sequence of calls, each by the thread named with it.
\<close>

datatype call = GetData | GetBblfsh | CloseChannel | Shutdown | ThreadExit

fun call_step :: "world \<Rightarrow> thread \<times> call \<Rightarrow> world" where
  "call_step w (t, GetData) = snd (get_data t w)"
| "call_step w (t, GetBblfsh) = snd (get_bblfsh t w)"
| "call_step w (t, CloseChannel) = snd (close_channel t w)"
| "call_step w (t, Shutdown) = shutdown w"
| "call_step w (t, ThreadExit) = set_local t (\<lambda>l. threading_local t) w"

definition run :: "(thread \<times> call) list \<Rightarrow> world \<Rightarrow> world" where
  "run cs w = foldl call_step w cs"

text \<open>The channels a thread opened that nobody closed since.\<close>

definition live_channels :: "thread \<Rightarrow> world \<Rightarrow> channel list" where
  "live_channels t w =
     filter (\<lambda>c. c \<notin> set (closed w)) (map fst (filter (\<lambda>(c, u). u = t) (opened w)))"

text \<open>What every call preserves.\<close>

definition session_inv :: "world \<Rightarrow> bool" where
  "session_inv w \<longleftrightarrow>
     distinct (map fst (opened w))
     \<and> (\<forall>c \<in> fst ` set (opened w). c < next_channel w)
     \<and> distinct (data_request_channels w)
     \<and> distinct (closed w)
     \<and> set (data_request_channels w) \<inter> set (closed w) = {}
     \<and> set (data_request_channels w) \<union> set (closed w) = fst ` set (opened w)
     \<and> (\<forall>t c. channel (data_request_local w t) = Some c
            \<longrightarrow> c \<in> set (data_request_channels w) \<and> (c, t) \<in> set (opened w))
     \<and> (\<forall>t c. data_stub (data_request_local w t) = Some (DataStub c)
            \<longrightarrow> channel (data_request_local w t) = Some c)
     \<and> (\<forall>t c. bblfsh_stub (data_request_local w t) = Some (ProtocolServiceStub c)
            \<longrightarrow> channel (data_request_local w t) = Some c)"

text \<open>As long as no thread has exited, a registered channel is in the slot of its thread.\<close>

definition slots_hold_registry :: "world \<Rightarrow> bool" where
  "slots_hold_registry w \<longleftrightarrow>
     (\<forall>(c, t) \<in> set (opened w).
        c \<in> set (data_request_channels w) \<longrightarrow> channel (data_request_local w t) = Some c)"

section \<open>\<open>AnalyzerContextManager\<close>\<close>

text \<open>
  The context manager that launches an analyzer. Its collaborators (the model repository,
  the event listener, the SDK) act outside the program: what is asked of them is appended
  to \<open>events\<close>. An attribute that \<open>__init__\<close> does not set is \<open>None\<close> until \<open>__enter__\<close>
  assigns it, and reading it before raises \<open>AttributeError\<close>. The results of \<open>find_port()\<close>
  and \<open>check_port_free\<close> and the outcome of an SDK command are parameters.
\<close>

definition no_attribute :: "string \<Rightarrow> string" where
  "no_attribute name =
     [CHR 0x27] @ ''AnalyzerContextManager'' @ [CHR 0x27] @ '' object has no attribute ''
     @ [CHR 0x27] @ name @ [CHR 0x27]"

datatype lookout_sdk = LookoutSDK

record 'j sdk_args =
  fr :: string
  to :: string
  git_dir :: string
  bblfsh :: "string option"
  log_level :: "string option"
  config_json :: "'j option"

datatype 'j sdk_command = Review "'j sdk_args" nat | Push "'j sdk_args" nat

datatype 'j event =
    ModelRepoCreate
  | ModelRepoInit
  | ListenerStart nat
  | ListenerStop
  | ModelRepoShutdown
  | SdkCommand "'j sdk_command"

record 'j context_manager =
  init :: bool
  port :: nat
  cm_data_request_address :: string
  lookout_sdk :: "lookout_sdk option"
  model_repository :: "unit option"
  data_service :: "world option"
  listener :: "nat option"
  events :: "'j event list"

definition AnalyzerContextManager_init :: "nat \<Rightarrow> bool \<Rightarrow> string \<Rightarrow> 'j context_manager" where
  "AnalyzerContextManager_init found_port init_flag address =
     \<lparr>init = init_flag, port = found_port, cm_data_request_address = address,
      lookout_sdk = None, model_repository = None, data_service = None, listener = None,
      events = []\<rparr>"

definition cm_enter :: "(nat \<Rightarrow> bool) \<Rightarrow> nat \<Rightarrow> 'j context_manager \<Rightarrow> 'j context_manager" where
  "cm_enter check_port_free found_port s =
     (let s = s\<lparr>model_repository := Some (), events := events s @ [ModelRepoCreate]\<rparr>;
          s = (if init s then s\<lparr>events := events s @ [ModelRepoInit]\<rparr> else s);
          s = s\<lparr>data_service := Some (DataService_init (cm_data_request_address s))\<rparr>;
          s = (if \<not> check_port_free (port s) then s\<lparr>port := found_port\<rparr> else s);
          s = s\<lparr>listener := Some (port s)\<rparr>;
          s = s\<lparr>events := events s @ [ListenerStart (port s)]\<rparr>
      in s\<lparr>lookout_sdk := Some LookoutSDK\<rparr>)"

definition cm_exit :: "'j context_manager \<Rightarrow> (exn + unit) \<times> 'j context_manager" where
  "cm_exit s =
     (let s = s\<lparr>lookout_sdk := None\<rparr> in
      case listener s of
        None \<Rightarrow> (Inl (AttributeError (no_attribute ''listener'')), s)
      | Some l \<Rightarrow>
          (let s = s\<lparr>events := events s @ [ListenerStop]\<rparr> in
           case model_repository s of
             None \<Rightarrow> (Inl (AttributeError (no_attribute ''model_repository'')), s)
           | Some m \<Rightarrow>
               (let s = s\<lparr>events := events s @ [ModelRepoShutdown]\<rparr> in
                case data_service s of
                  None \<Rightarrow> (Inl (AttributeError (no_attribute ''data_service'')), s)
                | Some w \<Rightarrow> (Inr (), s\<lparr>data_service := Some (shutdown w)\<rparr>))))"

definition review ::
  "('j sdk_command \<Rightarrow> exn + 'r) \<Rightarrow> 'j sdk_args \<Rightarrow> 'j context_manager
     \<Rightarrow> (exn + 'r) \<times> 'j context_manager" where
  "review sdk args s =
     (if lookout_sdk s = None then
        (Inl (AttributeError ''AnalyzerContextManager.review() is available only inside `with`''), s)
      else
        (sdk (Review args (port s)), s\<lparr>events := events s @ [SdkCommand (Review args (port s))]\<rparr>))"

definition push ::
  "('j sdk_command \<Rightarrow> exn + 'r) \<Rightarrow> 'j sdk_args \<Rightarrow> 'j context_manager
     \<Rightarrow> (exn + 'r) \<times> 'j context_manager" where
  "push sdk args s =
     (if lookout_sdk s = None then
        (Inl (AttributeError
           ''AnalyzerContextManager.push() is available only inside `with` statement''), s)
      else
        (sdk (Push args (port s)), s\<lparr>events := events s @ [SdkCommand (Push args (port s))]\<rparr>))"

section \<open>The session invariant\<close>

text \<open>What the operations do to each component of the world.\<close>

lemma set_local_simps [simp]:
  "data_request_local (set_local t f w) = (data_request_local w)(t := f (data_request_local w t))"
  "data_request_channels (set_local t f w) = data_request_channels w"
  "data_request_address (set_local t f w) = data_request_address w"
  "next_channel (set_local t f w) = next_channel w"
  "opened (set_local t f w) = opened w"
  "closed (set_local t f w) = closed w"
  by (simp_all add: set_local_def)

lemma channel_close_simps [simp]:
  "data_request_local (channel_close c w) = data_request_local w"
  "data_request_channels (channel_close c w) = data_request_channels w"
  "data_request_address (channel_close c w) = data_request_address w"
  "next_channel (channel_close c w) = next_channel w"
  "opened (channel_close c w) = opened w"
  "closed (channel_close c w) = closed w @ [c]"
  by (simp_all add: channel_close_def)

lemma close_all_simps [simp]:
  "data_request_local (foldl (\<lambda>v c. channel_close c v) w cs) = data_request_local w"
  "data_request_channels (foldl (\<lambda>v c. channel_close c v) w cs) = data_request_channels w"
  "data_request_address (foldl (\<lambda>v c. channel_close c v) w cs) = data_request_address w"
  "next_channel (foldl (\<lambda>v c. channel_close c v) w cs) = next_channel w"
  "opened (foldl (\<lambda>v c. channel_close c v) w cs) = opened w"
  "closed (foldl (\<lambda>v c. channel_close c v) w cs) = closed w @ cs"
  by (induction cs arbitrary: w; simp)+

lemma shutdown_simps [simp]:
  "data_request_local (shutdown w) = threading_local"
  "data_request_channels (shutdown w) = []"
  "data_request_address (shutdown w) = data_request_address w"
  "next_channel (shutdown w) = next_channel w"
  "opened (shutdown w) = opened w"
  "closed (shutdown w) = closed w @ data_request_channels w"
  by (simp_all add: shutdown_def Let_def)

lemma threading_local_simps [simp]:
  "channel (threading_local t) = None"
  "data_stub (threading_local t) = None"
  "bblfsh_stub (threading_local t) = None"
  by (simp_all add: threading_local_def)

lemma get_channel_None:
  "channel (data_request_local w t) = None \<Longrightarrow>
   fst (get_channel t w) = next_channel w
   \<and> data_request_local (snd (get_channel t w))
       = (data_request_local w)(t := (data_request_local w t)\<lparr>channel := Some (next_channel w)\<rparr>)
   \<and> data_request_channels (snd (get_channel t w)) = data_request_channels w @ [next_channel w]
   \<and> data_request_address (snd (get_channel t w)) = data_request_address w
   \<and> next_channel (snd (get_channel t w)) = Suc (next_channel w)
   \<and> opened (snd (get_channel t w)) = opened w @ [(next_channel w, t)]
   \<and> closed (snd (get_channel t w)) = closed w"
  by (simp add: get_channel_def create_channel_def Let_def)

lemma get_channel_Some:
  "channel (data_request_local w t) = Some c \<Longrightarrow> get_channel t w = (c, w)"
  by (simp add: get_channel_def)

lemma session_inv_init: "session_inv (DataService_init a)"
  by (simp add: session_inv_def DataService_init_def)

lemma session_invD:
  assumes "session_inv w"
  shows "distinct (map fst (opened w))"
    and "\<And>c u. (c, u) \<in> set (opened w) \<Longrightarrow> c < next_channel w"
    and "distinct (data_request_channels w)"
    and "distinct (closed w)"
    and "\<And>c. c \<in> set (data_request_channels w) \<Longrightarrow> c \<notin> set (closed w)"
    and "set (data_request_channels w) \<union> set (closed w) = fst ` set (opened w)"
    and "\<And>t c. channel (data_request_local w t) = Some c \<Longrightarrow> c \<in> set (data_request_channels w)"
    and "\<And>t c. channel (data_request_local w t) = Some c \<Longrightarrow> (c, t) \<in> set (opened w)"
    and "\<And>t c. data_stub (data_request_local w t) = Some (DataStub c)
           \<Longrightarrow> channel (data_request_local w t) = Some c"
    and "\<And>t c. bblfsh_stub (data_request_local w t) = Some (ProtocolServiceStub c)
           \<Longrightarrow> channel (data_request_local w t) = Some c"
  using assms unfolding session_inv_def by (auto simp: disjoint_iff)

lemma session_invI:
  assumes "distinct (map fst (opened w))"
    and "\<And>c u. (c, u) \<in> set (opened w) \<Longrightarrow> c < next_channel w"
    and "distinct (data_request_channels w)"
    and "distinct (closed w)"
    and "\<And>c. c \<in> set (data_request_channels w) \<Longrightarrow> c \<notin> set (closed w)"
    and "set (data_request_channels w) \<union> set (closed w) = fst ` set (opened w)"
    and "\<And>t c. channel (data_request_local w t) = Some c \<Longrightarrow> c \<in> set (data_request_channels w)"
    and "\<And>t c. channel (data_request_local w t) = Some c \<Longrightarrow> (c, t) \<in> set (opened w)"
    and "\<And>t c. data_stub (data_request_local w t) = Some (DataStub c)
           \<Longrightarrow> channel (data_request_local w t) = Some c"
    and "\<And>t c. bblfsh_stub (data_request_local w t) = Some (ProtocolServiceStub c)
           \<Longrightarrow> channel (data_request_local w t) = Some c"
  shows "session_inv w"
  using assms unfolding session_inv_def by (auto simp: disjoint_iff)

lemma fresh_channel:
  assumes "session_inv w"
  shows "next_channel w \<notin> fst ` set (opened w)"
    and "next_channel w \<notin> set (data_request_channels w)"
    and "next_channel w \<notin> set (closed w)"
proof -
  show f: "next_channel w \<notin> fst ` set (opened w)"
    using session_invD(2)[OF assms] by fastforce
  from f session_invD(6)[OF assms]
  show "next_channel w \<notin> set (data_request_channels w)" "next_channel w \<notin> set (closed w)"
    by auto
qed

lemma session_inv_get_channel:
  assumes "session_inv w"
  shows "session_inv (snd (get_channel t w))"
proof (cases "channel (data_request_local w t)")
  case None
  note g = get_channel_None[OF None]
  note d = session_invD[OF assms]
  note f = fresh_channel[OF assms]
  show ?thesis
  proof (rule session_invI)
    show "distinct (map fst (opened (snd (get_channel t w))))"
      using d(1) f(1) by (simp add: g)
    show "\<And>c u. (c, u) \<in> set (opened (snd (get_channel t w))) \<Longrightarrow> c < next_channel (snd (get_channel t w))"
      using d(2) by (auto simp: g less_Suc_eq)
    show "distinct (data_request_channels (snd (get_channel t w)))"
      using d(3) f(2) by (simp add: g)
    show "distinct (closed (snd (get_channel t w)))"
      using d(4) by (simp add: g)
    show "\<And>c. c \<in> set (data_request_channels (snd (get_channel t w))) \<Longrightarrow> c \<notin> set (closed (snd (get_channel t w)))"
      using d(5) f(3) by (auto simp: g)
    show "set (data_request_channels (snd (get_channel t w))) \<union> set (closed (snd (get_channel t w)))
          = fst ` set (opened (snd (get_channel t w)))"
      using d(6) by (auto simp: g)
    show "\<And>u c. channel (data_request_local (snd (get_channel t w)) u) = Some c
           \<Longrightarrow> c \<in> set (data_request_channels (snd (get_channel t w)))"
      using d(7) by (auto simp: g split: if_splits)
    show "\<And>u c. channel (data_request_local (snd (get_channel t w)) u) = Some c
           \<Longrightarrow> (c, u) \<in> set (opened (snd (get_channel t w)))"
      using d(8) by (auto simp: g split: if_splits)
    show "\<And>u c. data_stub (data_request_local (snd (get_channel t w)) u) = Some (DataStub c)
           \<Longrightarrow> channel (data_request_local (snd (get_channel t w)) u) = Some c"
      using d(9) None by (auto simp: g split: if_splits)
    show "\<And>u c. bblfsh_stub (data_request_local (snd (get_channel t w)) u) = Some (ProtocolServiceStub c)
           \<Longrightarrow> channel (data_request_local (snd (get_channel t w)) u) = Some c"
      using d(10) None by (auto simp: g split: if_splits)
  qed
next
  case (Some c)
  then show ?thesis using assms by (simp add: get_channel_Some)
qed

lemma get_channel_slot:
  "channel (data_request_local (snd (get_channel t w)) t) = Some (fst (get_channel t w))"
  by (cases "channel (data_request_local w t)") (simp_all add: get_channel_None get_channel_Some)

lemma session_inv_set_data_stub:
  assumes "session_inv w" and "channel (data_request_local w t) = Some c"
  shows "session_inv (set_local t (\<lambda>l. l\<lparr>data_stub := Some (DataStub c)\<rparr>) w)"
proof -
  note d = session_invD[OF assms(1)]
  show ?thesis
    by (rule session_invI) (use d assms(2) in \<open>auto split: if_splits\<close>)
qed

lemma session_inv_set_bblfsh_stub:
  assumes "session_inv w" and "channel (data_request_local w t) = Some c"
  shows "session_inv (set_local t (\<lambda>l. l\<lparr>bblfsh_stub := Some (ProtocolServiceStub c)\<rparr>) w)"
proof -
  note d = session_invD[OF assms(1)]
  show ?thesis
    by (rule session_invI) (use d assms(2) in \<open>auto split: if_splits\<close>)
qed

lemma get_data_None:
  "data_stub (data_request_local w t) = None \<Longrightarrow>
   get_data t w = (DataStub (fst (get_channel t w)),
     set_local t (\<lambda>l. l\<lparr>data_stub := Some (DataStub (fst (get_channel t w)))\<rparr>) (snd (get_channel t w)))"
  by (simp add: get_data_def Let_def split: prod.split)

lemma get_data_Some:
  "data_stub (data_request_local w t) = Some stub \<Longrightarrow> get_data t w = (stub, w)"
  by (simp add: get_data_def)

lemma get_bblfsh_None:
  "bblfsh_stub (data_request_local w t) = None \<Longrightarrow>
   get_bblfsh t w = (ProtocolServiceStub (fst (get_channel t w)),
     set_local t (\<lambda>l. l\<lparr>bblfsh_stub := Some (ProtocolServiceStub (fst (get_channel t w)))\<rparr>)
       (snd (get_channel t w)))"
  by (simp add: get_bblfsh_def Let_def split: prod.split)

lemma get_bblfsh_Some:
  "bblfsh_stub (data_request_local w t) = Some stub \<Longrightarrow> get_bblfsh t w = (stub, w)"
  by (simp add: get_bblfsh_def)

lemma session_inv_get_data:
  assumes "session_inv w"
  shows "session_inv (snd (get_data t w))"
proof (cases "data_stub (data_request_local w t)")
  case None
  show ?thesis
    using session_inv_set_data_stub[OF session_inv_get_channel[OF assms] get_channel_slot]
    by (simp add: get_data_None[OF None])
next
  case (Some stub)
  then show ?thesis using assms by (simp add: get_data_Some)
qed

lemma session_inv_get_bblfsh:
  assumes "session_inv w"
  shows "session_inv (snd (get_bblfsh t w))"
proof (cases "bblfsh_stub (data_request_local w t)")
  case None
  show ?thesis
    using session_inv_set_bblfsh_stub[OF session_inv_get_channel[OF assms] get_channel_slot]
    by (simp add: get_bblfsh_None[OF None])
next
  case (Some stub)
  then show ?thesis using assms by (simp add: get_bblfsh_Some)
qed

lemma close_channel_None:
  "channel (data_request_local w t) = None \<Longrightarrow> close_channel t w = (Inr (), w)"
  by (simp add: close_channel_def)

lemma close_channel_Some:
  assumes "channel (data_request_local w t) = Some c" and "c \<in> set (data_request_channels w)"
  shows "fst (close_channel t w) = Inr ()"
    and "data_request_local (snd (close_channel t w)) = (data_request_local w)(t := threading_local t)"
    and "data_request_channels (snd (close_channel t w)) = remove1 c (data_request_channels w)"
    and "data_request_address (snd (close_channel t w)) = data_request_address w"
    and "next_channel (snd (close_channel t w)) = next_channel w"
    and "opened (snd (close_channel t w)) = opened w"
    and "closed (snd (close_channel t w)) = closed w @ [c]"
  using assms by (simp_all add: close_channel_def Let_def threading_local_def fun_eq_iff)

lemma close_channel_unregistered:
  assumes "channel (data_request_local w t) = Some c" and "c \<notin> set (data_request_channels w)"
  shows "close_channel t w = (Inl ValueError, w)"
  using assms by (simp add: close_channel_def)

lemma opened_owner_unique:
  assumes "session_inv w" and "(c, t) \<in> set (opened w)" and "(c, u) \<in> set (opened w)"
  shows "t = u"
  using session_invD(1)[OF assms(1)] assms(2,3) by (meson eq_key_imp_eq_value)

lemma session_inv_close_channel:
  assumes "session_inv w"
  shows "session_inv (snd (close_channel t w))"
proof (cases "channel (data_request_local w t)")
  case None
  then show ?thesis using assms by (simp add: close_channel_None)
next
  case (Some c)
  note d = session_invD[OF assms]
  have reg: "c \<in> set (data_request_channels w)" by (rule d(7)[OF Some])
  note e = close_channel_Some[OF Some reg]
  have other: "\<And>u c'. channel (data_request_local w u) = Some c' \<Longrightarrow> u \<noteq> t \<Longrightarrow> c' \<noteq> c"
    using opened_owner_unique[OF assms] d(8) Some by blast
  show ?thesis
  proof (rule session_invI)
    show "distinct (map fst (opened (snd (close_channel t w))))"
      using d(1) by (simp add: e)
    show "\<And>c u. (c, u) \<in> set (opened (snd (close_channel t w))) \<Longrightarrow> c < next_channel (snd (close_channel t w))"
      using d(2) by (simp add: e)
    show "distinct (data_request_channels (snd (close_channel t w)))"
      using d(3) by (simp add: e)
    show "distinct (closed (snd (close_channel t w)))"
      using d(4) d(5)[OF reg] by (simp add: e)
    show "\<And>c'. c' \<in> set (data_request_channels (snd (close_channel t w))) \<Longrightarrow> c' \<notin> set (closed (snd (close_channel t w)))"
      using d(3) d(5) by (auto simp: e)
    show "set (data_request_channels (snd (close_channel t w))) \<union> set (closed (snd (close_channel t w)))
          = fst ` set (opened (snd (close_channel t w)))"
      using d(3) d(6) reg by (auto simp: e)
    show "\<And>u c'. channel (data_request_local (snd (close_channel t w)) u) = Some c'
           \<Longrightarrow> c' \<in> set (data_request_channels (snd (close_channel t w)))"
      using d(3) d(7) other by (auto simp: e split: if_splits)
    show "\<And>u c'. channel (data_request_local (snd (close_channel t w)) u) = Some c'
           \<Longrightarrow> (c', u) \<in> set (opened (snd (close_channel t w)))"
      using d(8) by (auto simp: e split: if_splits)
    show "\<And>u c'. data_stub (data_request_local (snd (close_channel t w)) u) = Some (DataStub c')
           \<Longrightarrow> channel (data_request_local (snd (close_channel t w)) u) = Some c'"
      using d(9) by (auto simp: e split: if_splits)
    show "\<And>u c'. bblfsh_stub (data_request_local (snd (close_channel t w)) u) = Some (ProtocolServiceStub c')
           \<Longrightarrow> channel (data_request_local (snd (close_channel t w)) u) = Some c'"
      using d(10) by (auto simp: e split: if_splits)
  qed
qed

lemma session_inv_shutdown:
  assumes "session_inv w"
  shows "session_inv (shutdown w)"
proof -
  note d = session_invD[OF assms]
  show ?thesis
    by (rule session_invI) (use d in \<open>auto simp: Un_commute\<close>)
qed

lemma session_inv_thread_exit:
  assumes "session_inv w"
  shows "session_inv (set_local t (\<lambda>l. threading_local t) w)"
proof -
  note d = session_invD[OF assms]
  show ?thesis
    by (rule session_invI) (use d in \<open>auto split: if_splits\<close>)
qed

lemma session_inv_call_step:
  "session_inv w \<Longrightarrow> session_inv (call_step w tc)"
  by (cases tc; cases "snd tc")
    (simp_all add: session_inv_get_data session_inv_get_bblfsh session_inv_close_channel
      session_inv_shutdown session_inv_thread_exit)

lemma session_inv_run_from:
  "session_inv w \<Longrightarrow> session_inv (run cs w)"
  unfolding run_def by (induction cs arbitrary: w) (simp_all add: session_inv_call_step)

lemma session_inv_run: "session_inv (run cs (DataService_init a))"
  by (rule session_inv_run_from[OF session_inv_init])

lemma run_Nil [simp]: "run [] w = w"
  by (simp add: run_def)

lemma run_Cons [simp]: "run (tc # cs) w = run cs (call_step w tc)"
  by (simp add: run_def)

lemma init_simps [simp]:
  "data_request_local (DataService_init a) = threading_local"
  "data_request_channels (DataService_init a) = []"
  "data_request_address (DataService_init a) = a"
  "next_channel (DataService_init a) = 0"
  "opened (DataService_init a) = []"
  "closed (DataService_init a) = []"
  by (simp_all add: DataService_init_def)

lemma count_list_distinct:
  "distinct xs \<Longrightarrow> x \<in> set xs \<Longrightarrow> count_list xs x = 1"
  by (induction xs) auto

lemma get_data_empty_slot:
  assumes "data_request_local w t = threading_local t"
  shows "fst (get_data t w) = DataStub (next_channel w)"
    and "data_request_local (snd (get_data t w)) =
           (data_request_local w)(t := \<lparr>channel = Some (next_channel w),
              data_stub = Some (DataStub (next_channel w)), bblfsh_stub = None\<rparr>)"
    and "data_request_channels (snd (get_data t w)) = data_request_channels w @ [next_channel w]"
    and "opened (snd (get_data t w)) = opened w @ [(next_channel w, t)]"
    and "closed (snd (get_data t w)) = closed w"
    and "next_channel (snd (get_data t w)) = Suc (next_channel w)"
proof -
  have n: "data_stub (data_request_local w t) = None" "channel (data_request_local w t) = None"
    using assms by simp_all
  note g = get_channel_None[OF n(2)]
  show "fst (get_data t w) = DataStub (next_channel w)"
    by (simp add: get_data_None[OF n(1)] g)
  show "data_request_local (snd (get_data t w)) =
           (data_request_local w)(t := \<lparr>channel = Some (next_channel w),
              data_stub = Some (DataStub (next_channel w)), bblfsh_stub = None\<rparr>)"
    by (simp add: get_data_None[OF n(1)] g assms threading_local_def)
  show "data_request_channels (snd (get_data t w)) = data_request_channels w @ [next_channel w]"
    "opened (snd (get_data t w)) = opened w @ [(next_channel w, t)]"
    "closed (snd (get_data t w)) = closed w"
    "next_channel (snd (get_data t w)) = Suc (next_channel w)"
    by (simp_all add: get_data_None[OF n(1)] g)
qed

lemma slots_hold_registryD:
  "slots_hold_registry w \<Longrightarrow> (c, t) \<in> set (opened w) \<Longrightarrow> c \<in> set (data_request_channels w)
     \<Longrightarrow> channel (data_request_local w t) = Some c"
  unfolding slots_hold_registry_def by blast

lemma slots_hold_registryI:
  "(\<And>c t. (c, t) \<in> set (opened w) \<Longrightarrow> c \<in> set (data_request_channels w)
     \<Longrightarrow> channel (data_request_local w t) = Some c) \<Longrightarrow> slots_hold_registry w"
  unfolding slots_hold_registry_def by blast

lemma slots_hold_registry_init: "slots_hold_registry (DataService_init a)"
  by (simp add: slots_hold_registry_def)

lemma slots_hold_registry_get_channel:
  assumes "session_inv w" and "slots_hold_registry w"
  shows "slots_hold_registry (snd (get_channel t w))"
proof (cases "channel (data_request_local w t)")
  case None
  note g = get_channel_None[OF None]
  note f = fresh_channel[OF assms(1)]
  show ?thesis
  proof (rule slots_hold_registryI)
    fix c u
    assume o: "(c, u) \<in> set (opened (snd (get_channel t w)))"
      and r: "c \<in> set (data_request_channels (snd (get_channel t w)))"
    show "channel (data_request_local (snd (get_channel t w)) u) = Some c"
    proof (cases "c = next_channel w")
      case True
      with o f(1) have "u = t" by (force simp: g)
      with True show ?thesis by (simp add: g)
    next
      case False
      with o r have o': "(c, u) \<in> set (opened w)" and r': "c \<in> set (data_request_channels w)"
        by (simp_all add: g)
      have s: "channel (data_request_local w u) = Some c"
        by (rule slots_hold_registryD[OF assms(2) o' r'])
      with None have "u \<noteq> t" by auto
      with s show ?thesis by (simp add: g)
    qed
  qed
next
  case (Some c)
  then show ?thesis using assms(2) by (simp add: get_channel_Some)
qed

lemma slots_hold_registry_set_stub:
  assumes "slots_hold_registry w" and "\<And>l. channel (f l) = channel l"
  shows "slots_hold_registry (set_local t f w)"
  using assms unfolding slots_hold_registry_def by auto

lemma slots_hold_registry_get_data:
  assumes "session_inv w" and "slots_hold_registry w"
  shows "slots_hold_registry (snd (get_data t w))"
proof (cases "data_stub (data_request_local w t)")
  case None
  show ?thesis
    using slots_hold_registry_set_stub[OF slots_hold_registry_get_channel[OF assms]]
    by (simp add: get_data_None[OF None])
next
  case (Some stub)
  then show ?thesis using assms(2) by (simp add: get_data_Some)
qed

lemma slots_hold_registry_get_bblfsh:
  assumes "session_inv w" and "slots_hold_registry w"
  shows "slots_hold_registry (snd (get_bblfsh t w))"
proof (cases "bblfsh_stub (data_request_local w t)")
  case None
  show ?thesis
    using slots_hold_registry_set_stub[OF slots_hold_registry_get_channel[OF assms]]
    by (simp add: get_bblfsh_None[OF None])
next
  case (Some stub)
  then show ?thesis using assms(2) by (simp add: get_bblfsh_Some)
qed

lemma slots_hold_registry_close_channel:
  assumes "session_inv w" and "slots_hold_registry w"
  shows "slots_hold_registry (snd (close_channel t w))"
proof (cases "channel (data_request_local w t)")
  case None
  then show ?thesis using assms(2) by (simp add: close_channel_None)
next
  case (Some c)
  note d = session_invD[OF assms(1)]
  have reg: "c \<in> set (data_request_channels w)" by (rule d(7)[OF Some])
  note e = close_channel_Some[OF Some reg]
  show ?thesis
  proof (rule slots_hold_registryI)
    fix c' u
    assume o: "(c', u) \<in> set (opened (snd (close_channel t w)))"
      and r: "c' \<in> set (data_request_channels (snd (close_channel t w)))"
    from r d(3) have ne: "c' \<noteq> c" and r': "c' \<in> set (data_request_channels w)"
      by (auto simp: e)
    from o have o': "(c', u) \<in> set (opened w)" by (simp add: e)
    have s: "channel (data_request_local w u) = Some c'"
      by (rule slots_hold_registryD[OF assms(2) o' r'])
    with Some ne have "u \<noteq> t" by auto
    with s show "channel (data_request_local (snd (close_channel t w)) u) = Some c'"
      by (simp add: e)
  qed
qed

lemma slots_hold_registry_shutdown: "slots_hold_registry (shutdown w)"
  by (simp add: slots_hold_registry_def)

lemma slots_hold_registry_run_from:
  assumes "ThreadExit \<notin> snd ` set cs" and "session_inv w" and "slots_hold_registry w"
  shows "slots_hold_registry (run cs w)"
  using assms
proof (induction cs arbitrary: w)
  case Nil
  then show ?case by simp
next
  case (Cons tc cs)
  obtain t k where tc: "tc = (t, k)" by (cases tc)
  from Cons.prems(1) tc have k: "k \<noteq> ThreadExit" and rest: "ThreadExit \<notin> snd ` set cs"
    by auto
  have "slots_hold_registry (call_step w tc)"
    using k Cons.prems(2,3) unfolding tc
    by (cases k)
      (simp_all add: slots_hold_registry_get_data slots_hold_registry_get_bblfsh
        slots_hold_registry_close_channel slots_hold_registry_shutdown)
  moreover have "session_inv (call_step w tc)"
    by (rule session_inv_call_step[OF Cons.prems(2)])
  ultimately show ?case
    using Cons.IH[OF rest] by simp
qed

lemma distinct_singleton:
  "distinct xs \<Longrightarrow> set xs = {x} \<Longrightarrow> xs = [x]"
  by (cases xs) (auto simp: subset_singleton_iff dest: subset_singletonD)

lemma live_channels_slot:
  assumes "session_inv w" and "slots_hold_registry w"
  shows "live_channels t w = (case channel (data_request_local w t) of None \<Rightarrow> [] | Some c \<Rightarrow> [c])"
proof -
  note d = session_invD[OF assms(1)]
  have dist: "distinct (live_channels t w)"
    unfolding live_channels_def using d(1) by (simp add: distinct_map_filter)
  have mem: "\<And>c. c \<in> set (live_channels t w) \<longleftrightarrow> channel (data_request_local w t) = Some c"
  proof
    fix c assume "c \<in> set (live_channels t w)"
    then have o: "(c, t) \<in> set (opened w)" and nc: "c \<notin> set (closed w)"
      unfolding live_channels_def by auto
    from o d(6) nc have "c \<in> set (data_request_channels w)" by force
    then show "channel (data_request_local w t) = Some c"
      by (rule slots_hold_registryD[OF assms(2) o])
  next
    fix c assume s: "channel (data_request_local w t) = Some c"
    from d(8)[OF s] d(5)[OF d(7)[OF s]]
    show "c \<in> set (live_channels t w)"
      unfolding live_channels_def by force
  qed
  show ?thesis
  proof (cases "channel (data_request_local w t)")
    case None
    have "live_channels t w = []"
    proof (cases "live_channels t w")
      case (Cons x xs)
      then have "x \<in> set (live_channels t w)" by simp
      with mem None show ?thesis by simp
    qed simp
    with None show ?thesis by simp
  next
    case (Some c)
    with mem have "set (live_channels t w) = {c}" by auto
    with dist have "live_channels t w = [c]" by (rule distinct_singleton)
    with Some show ?thesis by simp
  qed
qed


lemma stubs_bound_to_slot_channel:
  assumes "session_inv w"
  shows "data_stub (data_request_local w t) = None
         \<or> data_stub (data_request_local w t) = map_option DataStub (channel (data_request_local w t))"
    and "bblfsh_stub (data_request_local w t) = None
         \<or> bblfsh_stub (data_request_local w t)
            = map_option ProtocolServiceStub (channel (data_request_local w t))"
proof -
  note d = session_invD[OF assms]
  show "data_stub (data_request_local w t) = None
         \<or> data_stub (data_request_local w t) = map_option DataStub (channel (data_request_local w t))"
  proof (cases "data_stub (data_request_local w t)")
    case (Some stub)
    obtain c where "stub = DataStub c" by (cases stub)
    with Some d(9) show ?thesis by simp
  qed simp
  show "bblfsh_stub (data_request_local w t) = None
         \<or> bblfsh_stub (data_request_local w t)
            = map_option ProtocolServiceStub (channel (data_request_local w t))"
  proof (cases "bblfsh_stub (data_request_local w t)")
    case (Some stub)
    obtain c where "stub = ProtocolServiceStub c" by (cases stub)
    with Some d(10) show ?thesis by simp
  qed simp
qed

lemma get_data_slot:
  "bblfsh_stub (data_request_local (snd (get_data t w)) t) = bblfsh_stub (data_request_local w t)"
  "data_stub (data_request_local (snd (get_data t w)) t) = Some (fst (get_data t w))"
proof -
  show "bblfsh_stub (data_request_local (snd (get_data t w)) t) = bblfsh_stub (data_request_local w t)"
  proof (cases "data_stub (data_request_local w t)")
    case None
    show ?thesis
      by (cases "channel (data_request_local w t)")
        (simp_all add: get_data_None[OF None] get_channel_None get_channel_Some)
  qed (simp add: get_data_Some)
  show "data_stub (data_request_local (snd (get_data t w)) t) = Some (fst (get_data t w))"
  proof (cases "data_stub (data_request_local w t)")
    case None
    show ?thesis by (simp add: get_data_None[OF None])
  qed (simp add: get_data_Some)
qed

lemma get_bblfsh_slot:
  "data_stub (data_request_local (snd (get_bblfsh t w)) t) = data_stub (data_request_local w t)"
  "bblfsh_stub (data_request_local (snd (get_bblfsh t w)) t) = Some (fst (get_bblfsh t w))"
proof -
  show "data_stub (data_request_local (snd (get_bblfsh t w)) t) = data_stub (data_request_local w t)"
  proof (cases "bblfsh_stub (data_request_local w t)")
    case None
    show ?thesis
      by (cases "channel (data_request_local w t)")
        (simp_all add: get_bblfsh_None[OF None] get_channel_None get_channel_Some)
  qed (simp add: get_bblfsh_Some)
  show "bblfsh_stub (data_request_local (snd (get_bblfsh t w)) t) = Some (fst (get_bblfsh t w))"
  proof (cases "bblfsh_stub (data_request_local w t)")
    case None
    show ?thesis by (simp add: get_bblfsh_None[OF None])
  qed (simp add: get_bblfsh_Some)
qed

lemma collect_mismatched_eq:
  assumes "\<forall>r \<in> set versions. \<exists>req. Requirement P r = Inr req"
  shows "collect_mismatched P existing versions acc
         = Inr (acc @ map (mismatch_of P existing) (filter (unmet P existing) versions))"
  using assms
proof (induction versions arbitrary: acc)
  case Nil
  then show ?case by simp
next
  case (Cons r rs)
  from Cons.prems obtain name specifier where req: "Requirement P r = Inr (name, specifier)"
    by fastforce
  from Cons.prems have rest: "\<forall>r \<in> set rs. \<exists>req. Requirement P r = Inr req" by simp
  note IH = Cons.IH[OF rest]
  show ?case
  proof (cases "existing name")
    case None
    then show ?thesis by (simp add: req IH unmet_def mismatch_of_def)
  next
    case (Some ver)
    then show ?thesis by (simp add: req IH unmet_def mismatch_of_def)
  qed
qed

lemma close_channel_reached:
  assumes "session_inv w"
  shows "fst (close_channel t w) = Inr ()"
    and "closed (snd (close_channel t w))
         = closed w @ (case channel (data_request_local w t) of None \<Rightarrow> [] | Some c \<Rightarrow> [c])"
    and "channel (data_request_local (snd (close_channel t w)) t) = None"
proof -
  note d = session_invD[OF assms]
  show "fst (close_channel t w) = Inr ()"
    by (cases "channel (data_request_local w t)")
      (simp_all add: close_channel_None close_channel_Some(1) d(7))
  show "closed (snd (close_channel t w))
         = closed w @ (case channel (data_request_local w t) of None \<Rightarrow> [] | Some c \<Rightarrow> [c])"
    by (cases "channel (data_request_local w t)")
      (simp_all add: close_channel_None close_channel_Some(7) d(7))
  show "channel (data_request_local (snd (close_channel t w)) t) = None"
    by (cases "channel (data_request_local w t)")
      (simp_all add: close_channel_None close_channel_Some(2) d(7))
qed

lemma handle_rpc_errors_RpcError:
  assumes "func w = (Inl (RpcError e), w1)" and "fst (close_channel t w1) = Inr ()"
  shows "handle_rpc_errors t func w = (Inl (RpcError e), snd (close_channel t w1))"
  using assms by (cases "close_channel t w1") (simp add: handle_rpc_errors_def)

lemma handle_rpc_errors_other:
  assumes "func w = (r, w1)" and "\<And>e. r \<noteq> Inl (RpcError e)"
  shows "handle_rpc_errors t func w = (r, w1)"
proof (cases r)
  case (Inl x)
  with assms(2) show ?thesis
    by (cases x) (auto simp add: handle_rpc_errors_def assms(1))
next
  case (Inr y)
  then show ?thesis by (simp add: handle_rpc_errors_def assms(1))
qed

lemma handle_rpc_errors_outcome:
  assumes "func w = (r, w1)" and "fst (close_channel t w1) = Inr ()"
  shows "handle_rpc_errors t func w
         = (case r of
              Inl (RpcError e) \<Rightarrow> (Inl (RpcError e), snd (close_channel t w1))
            | _ \<Rightarrow> (r, w1))"
proof (cases r)
  case (Inl x)
  show ?thesis
  proof (cases x)
    case (RpcError e)
    with Inl assms show ?thesis
      by (cases "close_channel t w1") (simp add: handle_rpc_errors_def)
  qed (simp_all add: Inl handle_rpc_errors_def assms(1))
next
  case (Inr y)
  then show ?thesis by (simp add: handle_rpc_errors_def assms(1))
qed

section \<open>The error wrapper\<close>

text \<open>
  C1. For \<open>handle_rpc_errors\<close> on any wrapped call, and for a call of each of the six
  decorated methods: when the wrapped analyzer method leaves the session in a state reached
  by calls on it and raises an \<open>RpcError\<close>, the wrapper performs \<open>close_channel\<close> for the
  calling thread once, which returns normally, closes the channel of the thread's slot if
  there is one and empties the slot, and then that same \<open>RpcError\<close> is raised. When the
  method returns a value, the call returns that value and the state the method left, so
  nothing is closed; an exception that is not an \<open>RpcError\<close> passes through in the same way.
\<close>

theorem handle_rpc_errors_closes_and_reraises:
  assumes "w1 = run cs (DataService_init a)"
  shows "(func w = (r, w1) \<longrightarrow>
            (r = Inl (RpcError e) \<longrightarrow>
               handle_rpc_errors t func w = (Inl (RpcError e), snd (close_channel t w1)))
          \<and> (r = Inr x \<longrightarrow> handle_rpc_errors t func w = (Inr x, w1))
          \<and> ((\<forall>e'. r \<noteq> Inl (RpcError e')) \<longrightarrow> handle_rpc_errors t func w = (r, w1)))
       \<and> fst (close_channel t w1) = Inr ()
       \<and> closed (snd (close_channel t w1))
           = closed w1 @ (case channel (data_request_local w1 t) of None \<Rightarrow> [] | Some c \<Rightarrow> [c])
       \<and> channel (data_request_local (snd (close_channel t w1)) t) = None
       \<and> (fc p1 p2 (request_changes G cc (GetChanges (fst (get_data t v))) p1 p2 False True unicode)
              (snd (get_data t v)) = (r, w1) \<longrightarrow>
            with_changed_uasts G cc GetChanges unicode fc t p1 p2 v
            = (case r of
                 Inl (RpcError e) \<Rightarrow> (Inl (RpcError e), snd (close_channel t w1))
               | _ \<Rightarrow> (r, w1)))
       \<and> (fc p1 p2 (request_changes G cc (GetChanges (fst (get_data t v))) p1 p2 True False unicode)
              (snd (get_data t v)) = (r, w1) \<longrightarrow>
            with_changed_contents G cc GetChanges unicode fc t p1 p2 v
            = (case r of
                 Inl (RpcError e) \<Rightarrow> (Inl (RpcError e), snd (close_channel t w1))
               | _ \<Rightarrow> (r, w1)))
       \<and> (fc p1 p2 (request_changes G cc (GetChanges (fst (get_data t v))) p1 p2 True True unicode)
              (snd (get_data t v)) = (r, w1) \<longrightarrow>
            with_changed_uasts_and_contents G cc GetChanges unicode fc t p1 p2 v
            = (case r of
                 Inl (RpcError e) \<Rightarrow> (Inl (RpcError e), snd (close_channel t w1))
               | _ \<Rightarrow> (r, w1)))
       \<and> (ff ptr config (request_files G cf (GetFiles (fst (get_data t v))) ptr False True unicode)
              (snd (get_data t v)) = (r, w1) \<longrightarrow>
            with_uasts G cf GetFiles unicode ff t ptr config v
            = (case r of
                 Inl (RpcError e) \<Rightarrow> (Inl (RpcError e), snd (close_channel t w1))
               | _ \<Rightarrow> (r, w1)))
       \<and> (ff ptr config (request_files G cf (GetFiles (fst (get_data t v))) ptr True False unicode)
              (snd (get_data t v)) = (r, w1) \<longrightarrow>
            with_contents G cf GetFiles unicode ff t ptr config v
            = (case r of
                 Inl (RpcError e) \<Rightarrow> (Inl (RpcError e), snd (close_channel t w1))
               | _ \<Rightarrow> (r, w1)))
       \<and> (ff ptr config (request_files G cf (GetFiles (fst (get_data t v))) ptr True True unicode)
              (snd (get_data t v)) = (r, w1) \<longrightarrow>
            with_uasts_and_contents G cf GetFiles unicode ff t ptr config v
            = (case r of
                 Inl (RpcError e) \<Rightarrow> (Inl (RpcError e), snd (close_channel t w1))
               | _ \<Rightarrow> (r, w1)))"
proof -
  have inv: "session_inv w1" unfolding assms by (rule session_inv_run)
  note c = close_channel_reached[OF inv, of t]
  have generic: "func w = (r, w1) \<longrightarrow>
            (r = Inl (RpcError e) \<longrightarrow>
               handle_rpc_errors t func w = (Inl (RpcError e), snd (close_channel t w1)))
          \<and> (r = Inr x \<longrightarrow> handle_rpc_errors t func w = (Inr x, w1))
          \<and> ((\<forall>e'. r \<noteq> Inl (RpcError e')) \<longrightarrow> handle_rpc_errors t func w = (r, w1))"
    using handle_rpc_errors_RpcError[OF _ c(1), of func w] handle_rpc_errors_other[of func w r w1 t]
    by blast
  have d1: "fc p1 p2 (request_changes G cc (GetChanges (fst (get_data t v))) p1 p2 False True unicode)
              (snd (get_data t v)) = (r, w1) \<longrightarrow>
            with_changed_uasts G cc GetChanges unicode fc t p1 p2 v
            = (case r of
                 Inl (RpcError e) \<Rightarrow> (Inl (RpcError e), snd (close_channel t w1))
               | _ \<Rightarrow> (r, w1))"
    unfolding with_changed_uasts_def
    by (intro impI handle_rpc_errors_outcome[OF _ c(1)]) (simp add: split_beta Let_def)
  have d2: "fc p1 p2 (request_changes G cc (GetChanges (fst (get_data t v))) p1 p2 True False unicode)
              (snd (get_data t v)) = (r, w1) \<longrightarrow>
            with_changed_contents G cc GetChanges unicode fc t p1 p2 v
            = (case r of
                 Inl (RpcError e) \<Rightarrow> (Inl (RpcError e), snd (close_channel t w1))
               | _ \<Rightarrow> (r, w1))"
    unfolding with_changed_contents_def
    by (intro impI handle_rpc_errors_outcome[OF _ c(1)]) (simp add: split_beta Let_def)
  have d3: "fc p1 p2 (request_changes G cc (GetChanges (fst (get_data t v))) p1 p2 True True unicode)
              (snd (get_data t v)) = (r, w1) \<longrightarrow>
            with_changed_uasts_and_contents G cc GetChanges unicode fc t p1 p2 v
            = (case r of
                 Inl (RpcError e) \<Rightarrow> (Inl (RpcError e), snd (close_channel t w1))
               | _ \<Rightarrow> (r, w1))"
    unfolding with_changed_uasts_and_contents_def
    by (intro impI handle_rpc_errors_outcome[OF _ c(1)]) (simp add: split_beta Let_def)
  have d4: "ff ptr config (request_files G cf (GetFiles (fst (get_data t v))) ptr False True unicode)
              (snd (get_data t v)) = (r, w1) \<longrightarrow>
            with_uasts G cf GetFiles unicode ff t ptr config v
            = (case r of
                 Inl (RpcError e) \<Rightarrow> (Inl (RpcError e), snd (close_channel t w1))
               | _ \<Rightarrow> (r, w1))"
    unfolding with_uasts_def
    by (intro impI handle_rpc_errors_outcome[OF _ c(1)]) (simp add: split_beta Let_def)
  have d5: "ff ptr config (request_files G cf (GetFiles (fst (get_data t v))) ptr True False unicode)
              (snd (get_data t v)) = (r, w1) \<longrightarrow>
            with_contents G cf GetFiles unicode ff t ptr config v
            = (case r of
                 Inl (RpcError e) \<Rightarrow> (Inl (RpcError e), snd (close_channel t w1))
               | _ \<Rightarrow> (r, w1))"
    unfolding with_contents_def
    by (intro impI handle_rpc_errors_outcome[OF _ c(1)]) (simp add: split_beta Let_def)
  have d6: "ff ptr config (request_files G cf (GetFiles (fst (get_data t v))) ptr True True unicode)
              (snd (get_data t v)) = (r, w1) \<longrightarrow>
            with_uasts_and_contents G cf GetFiles unicode ff t ptr config v
            = (case r of
                 Inl (RpcError e) \<Rightarrow> (Inl (RpcError e), snd (close_channel t w1))
               | _ \<Rightarrow> (r, w1))"
    unfolding with_uasts_and_contents_def
    by (intro impI handle_rpc_errors_outcome[OF _ c(1)]) (simp add: split_beta Let_def)
  from generic c d1 d2 d3 d4 d5 d6 show ?thesis by (intro conjI)
qed

theorem handle_rpc_errors_closes_and_reraises_witness:
  "with_uasts [] id (\<lambda>stub request. \<lparr>records = [stub], failure = Some (RpcError ''unavailable'')\<rparr>)
          False
          (\<lambda>ptr config files v.
             case failure files of Some e \<Rightarrow> (Inl e, v) | None \<Rightarrow> (Inr (records files), v))
          0 () () (DataService_init ''localhost:10301'')
     = (Inl (RpcError ''unavailable''),
        snd (close_channel 0 (run [(0, GetData)] (DataService_init ''localhost:10301''))))
   \<and> closed (snd (close_channel 0 (run [(0, GetData)] (DataService_init ''localhost:10301''))))
     = [0]
   \<and> data_request_channels
       (snd (close_channel 0 (run [(0, GetData)] (DataService_init ''localhost:10301''))))
     = []"
proof -
  let ?GetFiles = "\<lambda>(stub :: data_stub) (request :: unit files_request).
                     \<lparr>records = [stub], failure = Some (RpcError ''unavailable'')\<rparr>"
  let ?func = "\<lambda>(ptr :: unit) (config :: unit) (files :: data_stub stream) (v :: world).
                 case failure files of Some e \<Rightarrow> (Inl e, v)
                 | None \<Rightarrow> (Inr (records files) :: exn + data_stub list, v)"
  let ?w0 = "DataService_init ''localhost:10301''"
  let ?w1 = "run [(0, GetData)] ?w0"
  have g: "data_request_local ?w0 0 = threading_local 0" by simp
  note e = get_data_empty_slot[OF g]
  have b: "?func () () (request_files [] id (?GetFiles (fst (get_data 0 ?w0))) () False True False)
             (snd (get_data 0 ?w0)) = (Inl (RpcError ''unavailable''), ?w1)"
    by (simp add: request_files_def Let_def)
  have s: "channel (data_request_local ?w1 0) = Some 0" "closed ?w1 = []"
    "data_request_channels ?w1 = [0]"
    by (simp_all add: e)
  have r: "data_request_channels (snd (close_channel 0 ?w1)) = []"
    using close_channel_Some(3)[OF s(1)] s(3) by simp
  note T = handle_rpc_errors_closes_and_reraises[OF refl,
      where cs = "[(0, GetData)]" and a = "''localhost:10301''" and t = 0 and v = ?w0
        and ff = ?func and GetFiles = ?GetFiles and G = "[]" and cf = id and ptr = "()"
        and config = "()" and unicode = False and r = "Inl (RpcError ''unavailable'')"]
  note d4 = T[THEN conjunct2, THEN conjunct2, THEN conjunct2, THEN conjunct2, THEN conjunct2,
      THEN conjunct2, THEN conjunct2, THEN conjunct1]
  have w: "with_uasts [] id ?GetFiles False ?func 0 () () ?w0
           = (Inl (RpcError ''unavailable''), snd (close_channel 0 ?w1))"
    using d4[THEN mp, OF b] by simp
  have c: "closed (snd (close_channel 0 ?w1)) = [0]"
    using T[THEN conjunct2, THEN conjunct2, THEN conjunct1] s(1,2) by simp
  show ?thesis by (intro conjI w c r)
qed

lemma existing_versions_installed:
  assumes "\<forall>d \<in> set ds. \<exists>v. V (version d) = Inr v"
  shows "existing_versions V ds m
         = Inr (\<lambda>name. case filter (\<lambda>d. language d = name) ds of
                  [] \<Rightarrow> m name
                | x # xs \<Rightarrow> (case V (version (last (x # xs))) of Inl e \<Rightarrow> None | Inr v \<Rightarrow> Some v))"
  using assms
proof (induction ds arbitrary: m)
  case Nil
  then show ?case by simp
next
  case (Cons d ds)
  from Cons.prems obtain v where v: "V (version d) = Inr v" by auto
  from Cons.prems have rest: "\<forall>d \<in> set ds. \<exists>v. V (version d) = Inr v" by simp
  show ?case
    by (simp add: v Cons.IH[OF rest] fun_eq_iff split: list.splits)
qed

lemma existing_versions_invalid:
  assumes "\<exists>d \<in> set ds. \<exists>e. V (version d) = Inl e"
  shows "\<exists>d \<in> set ds. \<exists>e. V (version d) = Inl e \<and> existing_versions V ds m = Inl e"
  using assms
proof (induction ds arbitrary: m)
  case Nil
  then show ?case by simp
next
  case (Cons d ds)
  show ?case
  proof (cases "V (version d)")
    case (Inl e)
    then show ?thesis by simp
  next
    case (Inr v)
    with Cons.prems have "\<exists>d \<in> set ds. \<exists>e. V (version d) = Inl e" by auto
    from Cons.IH[OF this, of "m(language d \<mapsto> v)"]
    obtain d' e where "d' \<in> set ds" "V (version d') = Inl e"
      "existing_versions V ds (m(language d \<mapsto> v)) = Inl e"
      by blast
    then have "d' \<in> set (d # ds)" "V (version d') = Inl e"
      "existing_versions V (d # ds) m = Inl e"
      using Inr by simp_all
    then show ?thesis by blast
  qed
qed

lemma get_bblfsh_empty_slot:
  assumes "data_request_local w t = threading_local t"
  shows "fst (get_bblfsh t w) = ProtocolServiceStub (next_channel w)"
    and "data_request_local (snd (get_bblfsh t w)) =
           (data_request_local w)(t := \<lparr>channel = Some (next_channel w),
              data_stub = None, bblfsh_stub = Some (ProtocolServiceStub (next_channel w))\<rparr>)"
    and "data_request_channels (snd (get_bblfsh t w)) = data_request_channels w @ [next_channel w]"
    and "opened (snd (get_bblfsh t w)) = opened w @ [(next_channel w, t)]"
    and "closed (snd (get_bblfsh t w)) = closed w"
    and "next_channel (snd (get_bblfsh t w)) = Suc (next_channel w)"
proof -
  have n: "bblfsh_stub (data_request_local w t) = None" "channel (data_request_local w t) = None"
    using assms by simp_all
  note g = get_channel_None[OF n(2)]
  show "fst (get_bblfsh t w) = ProtocolServiceStub (next_channel w)"
    by (simp add: get_bblfsh_None[OF n(1)] g)
  show "data_request_local (snd (get_bblfsh t w)) =
           (data_request_local w)(t := \<lparr>channel = Some (next_channel w),
              data_stub = None, bblfsh_stub = Some (ProtocolServiceStub (next_channel w))\<rparr>)"
    by (simp add: get_bblfsh_None[OF n(1)] g assms threading_local_def)
  show "data_request_channels (snd (get_bblfsh t w)) = data_request_channels w @ [next_channel w]"
    "opened (snd (get_bblfsh t w)) = opened w @ [(next_channel w, t)]"
    "closed (snd (get_bblfsh t w)) = closed w"
    "next_channel (snd (get_bblfsh t w)) = Suc (next_channel w)"
    by (simp_all add: get_bblfsh_None[OF n(1)] g)
qed

lemma close_channel_split:
  "close_channel t w = close_channel_rest t (close_channel_read t w) w"
  by (simp add: close_channel_def close_channel_rest_def close_channel_read_def)

lemma close_channel_rest_after_shutdown:
  "close_channel_rest t (Some c) (shutdown w) = (Inl ValueError, shutdown w)"
  by (simp add: close_channel_rest_def)

section \<open>Request composition\<close>

text \<open>
  C3. For every combination of the \<open>contents\<close> and \<open>uast\<close> flags, the request that
  \<open>request_files\<close> and \<open>request_changes\<close> build has \<open>want_language = contents or uast\<close>,
  \<open>want_contents = contents\<close> and \<open>want_uast = uast\<close>, and it is the request the stub is
  called with. No combination raises: with both flags off the composer returns the stream
  the stub gives for that request.
\<close>

theorem request_want_flags:
  "want_language (files_request_of G ptr contents uast) = (contents \<or> uast)
   \<and> want_contents (files_request_of G ptr contents uast) = contents
   \<and> want_uast (files_request_of G ptr contents uast) = uast
   \<and> c_want_language (changes_request_of G p1 p2 contents uast) = (contents \<or> uast)
   \<and> c_want_contents (changes_request_of G p1 p2 contents uast) = contents
   \<and> c_want_uast (changes_request_of G p1 p2 contents uast) = uast
   \<and> request_files G cf GetFiles ptr contents uast False
       = GetFiles (files_request_of G ptr contents uast)
   \<and> request_changes G cc GetChanges p1 p2 contents uast False
       = GetChanges (changes_request_of G p1 p2 contents uast)
   \<and> request_files G cf GetFiles ptr contents uast True
       = map_stream cf (GetFiles (files_request_of G ptr contents uast))
   \<and> request_changes G cc GetChanges p1 p2 contents uast True
       = map_stream cc (GetChanges (changes_request_of G p1 p2 contents uast))"
  by (simp add: request_files_def request_changes_def files_request_of_def
      changes_request_of_def Let_def)

section \<open>Closing a thread's channel\<close>

text \<open>
  C4. On a session reached by any sequence of calls: when the calling thread has a channel
  in its slot, \<open>close_channel\<close> returns normally, closes that channel (one \<open>close()\<close>, and
  the channel has then been closed exactly once), removes it from the registry, empties the
  thread's slot and leaves the slots of the other threads as they were; the next
  \<open>get_data\<close> of the thread returns a stub on a channel created by that call, different
  from the closed one and from every channel opened before. When the thread has no channel,
  \<open>close_channel\<close> changes nothing.
\<close>

theorem close_channel_effect:
  assumes "w = run cs (DataService_init a)"
  shows "(channel (data_request_local w t) = Some c \<longrightarrow>
            fst (close_channel t w) = Inr ()
          \<and> closed (snd (close_channel t w)) = closed w @ [c]
          \<and> count_list (closed (snd (close_channel t w))) c = 1
          \<and> data_request_channels (snd (close_channel t w)) = remove1 c (data_request_channels w)
          \<and> c \<notin> set (data_request_channels (snd (close_channel t w)))
          \<and> data_request_local (snd (close_channel t w))
              = (data_request_local w)(t := \<lparr>channel = None, data_stub = None, bblfsh_stub = None\<rparr>)
          \<and> opened (snd (close_channel t w)) = opened w
          \<and> fst (get_data t (snd (close_channel t w))) = DataStub (next_channel w)
          \<and> next_channel w \<noteq> c
          \<and> next_channel w \<notin> fst ` set (opened w)
          \<and> opened (snd (get_data t (snd (close_channel t w)))) = opened w @ [(next_channel w, t)]
          \<and> channel (data_request_local (snd (get_data t (snd (close_channel t w)))) t)
              = Some (next_channel w))
       \<and> (channel (data_request_local w t) = None \<longrightarrow> close_channel t w = (Inr (), w))"
proof (intro conjI impI)
  assume "channel (data_request_local w t) = None"
  then show "close_channel t w = (Inr (), w)" by (rule close_channel_None)
next
  have inv: "session_inv w" unfolding assms by (rule session_inv_run)
  note d = session_invD[OF inv]
  note f = fresh_channel[OF inv]
  assume slot: "channel (data_request_local w t) = Some c"
  have reg: "c \<in> set (data_request_channels w)" by (rule d(7)[OF slot])
  note e = close_channel_Some[OF slot reg]
  let ?w' = "snd (close_channel t w)"
  have empty: "data_request_local ?w' t = threading_local t" by (simp add: e)
  note g = get_data_empty_slot[OF empty]
  show "fst (close_channel t w) = Inr ()" by (rule e(1))
  show "closed ?w' = closed w @ [c]" by (rule e(7))
  show "count_list (closed ?w') c = 1"
    using d(4) d(5)[OF reg] by (simp add: e count_list_distinct)
  show "data_request_channels ?w' = remove1 c (data_request_channels w)" by (rule e(3))
  show "c \<notin> set (data_request_channels ?w')" using d(3) by (simp add: e)
  show "data_request_local ?w' = (data_request_local w)(t := \<lparr>channel = None, data_stub = None, bblfsh_stub = None\<rparr>)"
    by (simp add: e threading_local_def)
  show "opened ?w' = opened w" by (rule e(6))
  show "fst (get_data t ?w') = DataStub (next_channel w)" by (simp add: g e)
  show "next_channel w \<noteq> c" using f(2) reg by auto
  show "next_channel w \<notin> fst ` set (opened w)" by (rule f(1))
  show "opened (snd (get_data t ?w')) = opened w @ [(next_channel w, t)]" by (simp add: g e)
  show "channel (data_request_local (snd (get_data t ?w')) t) = Some (next_channel w)"
    by (simp add: g e)
qed

theorem close_channel_effect_witness:
  "channel (data_request_local (run [(0, GetData)] (DataService_init ''localhost:10301'')) 0) = Some 0
   \<and> closed (snd (close_channel 0 (run [(0, GetData)] (DataService_init ''localhost:10301'')))) = [0]
   \<and> data_request_channels (snd (close_channel 0 (run [(0, GetData)] (DataService_init ''localhost:10301'')))) = []
   \<and> fst (get_data 0 (snd (close_channel 0 (run [(0, GetData)] (DataService_init ''localhost:10301''))))) = DataStub 1
   \<and> close_channel 1 (run [(0, GetData)] (DataService_init ''localhost:10301''))
       = (Inr (), run [(0, GetData)] (DataService_init ''localhost:10301''))"
proof -
  let ?w = "run [(0, GetData)] (DataService_init ''localhost:10301'')"
  have g: "data_request_local (DataService_init ''localhost:10301'') 0 = threading_local 0"
    by simp
  note e = get_data_empty_slot[OF g]
  have h: "channel (data_request_local ?w 0) = Some 0" by (simp add: e)
  have h1: "channel (data_request_local ?w 1) = None" by (simp add: e)
  have n: "next_channel ?w = 1" "closed ?w = []" "data_request_channels ?w = [0]"
    by (simp_all add: e)
  from close_channel_effect[OF refl, of "[(0, GetData)]" "''localhost:10301''" 0 0] h
    close_channel_effect[OF refl, of "[(0, GetData)]" "''localhost:10301''" 1 0] h1 n
  show ?thesis by simp
qed


section \<open>Shutdown\<close>

text \<open>
  C5. On a session reached by any sequence of calls of any threads, some of which may have
  closed their channel or exited: \<open>shutdown\<close> closes every channel of the registry, whoever
  opened it, empties the registry and the slot of every thread, and afterwards every channel
  ever opened on the session has been closed exactly once. A second \<open>shutdown\<close> right after
  closes nothing and changes nothing.
\<close>

theorem shutdown_closes_registry:
  assumes "w = run cs (DataService_init a)"
  shows "closed (shutdown w) = closed w @ data_request_channels w
       \<and> data_request_channels (shutdown w) = []
       \<and> data_request_local (shutdown w)
           = (\<lambda>t. \<lparr>channel = None, data_stub = None, bblfsh_stub = None\<rparr>)
       \<and> (\<forall>c \<in> fst ` set (opened w). count_list (closed (shutdown w)) c = 1)
       \<and> shutdown (shutdown w) = shutdown w
       \<and> closed (shutdown (shutdown w)) = closed (shutdown w)"
proof -
  have inv: "session_inv w" unfolding assms by (rule session_inv_run)
  note d = session_invD[OF inv]
  have dist: "distinct (closed w @ data_request_channels w)"
    using d(3) d(4) d(5) by auto
  have all: "\<forall>c \<in> fst ` set (opened w). count_list (closed (shutdown w)) c = 1"
  proof
    fix c assume "c \<in> fst ` set (opened w)"
    then have "c \<in> set (closed w @ data_request_channels w)"
      using d(6) by auto
    then show "count_list (closed (shutdown w)) c = 1"
      using dist by (simp only: shutdown_simps count_list_distinct)
  qed
  have idem: "shutdown (shutdown w) = shutdown w"
    by (simp add: shutdown_def Let_def)
  show ?thesis
    using all idem by (simp add: threading_local_def)
qed

theorem shutdown_closes_registry_witness:
  "closed (shutdown (run [(0, GetData), (1, GetBblfsh), (0, CloseChannel), (1, ThreadExit), (2, GetData)]
      (DataService_init ''localhost:10301''))) = [0, 1, 2]
   \<and> data_request_channels (shutdown (run [(0, GetData), (1, GetBblfsh), (0, CloseChannel), (1, ThreadExit), (2, GetData)]
      (DataService_init ''localhost:10301''))) = []
   \<and> count_list (closed (shutdown (run [(0, GetData), (1, GetBblfsh), (0, CloseChannel), (1, ThreadExit), (2, GetData)]
      (DataService_init ''localhost:10301'')))) 1 = 1
   \<and> closed (shutdown (shutdown (run [(0, GetData), (1, GetBblfsh), (0, CloseChannel), (1, ThreadExit), (2, GetData)]
      (DataService_init ''localhost:10301'')))) = [0, 1, 2]"
proof -
  let ?cs = "[(0, GetData), (1, GetBblfsh), (0, CloseChannel), (1, ThreadExit), (2, GetData)]"
  let ?w = "run ?cs (DataService_init ''localhost:10301'')"
  have c: "closed ?w = [0]" and r: "data_request_channels ?w = [1, 2]"
    and o: "opened ?w = [(0, 0), (1, 1), (2, 2)]"
    by (simp_all add: get_data_def get_bblfsh_def get_channel_def create_channel_def
        close_channel_def Let_def threading_local_def)
  from shutdown_closes_registry[OF refl, of ?cs "''localhost:10301''"] c r o
  show ?thesis by simp
qed


section \<open>One channel per thread\<close>

text \<open>
  C2, as stated, fails: the first \<open>get_data\<close> of a thread creates the channel and the data
  stub only. After it the slot holds a channel and a data stub and no Babelfish stub.
\<close>

theorem slot_after_get_data_counterexample:
  "channel (data_request_local (snd (get_data 0 (DataService_init ''localhost:10301''))) 0) = Some 0
   \<and> data_stub (data_request_local (snd (get_data 0 (DataService_init ''localhost:10301''))) 0)
       = Some (DataStub 0)
   \<and> bblfsh_stub (data_request_local (snd (get_data 0 (DataService_init ''localhost:10301''))) 0)
       = None"
proof -
  have g: "data_request_local (DataService_init ''localhost:10301'') 0 = threading_local 0"
    by simp
  show ?thesis by (simp add: get_data_empty_slot[OF g])
qed

text \<open>
  C2, amended. On a session reached by any sequence of \<open>get_data\<close>, \<open>get_bblfsh\<close>,
  \<open>close_channel\<close> and \<open>shutdown\<close> calls of any threads: the channels a thread opened
  and nobody closed are exactly the channel in its slot, so there is at most one; a stub in
  the slot is bound to the channel in the slot, and a slot without a channel has no stub. A
  getter stores its own stub and leaves the other stub of the slot as it was.
\<close>

theorem one_live_channel_per_thread:
  assumes "w = run cs (DataService_init a)" and "ThreadExit \<notin> snd ` set cs"
  shows "live_channels t w = (case channel (data_request_local w t) of None \<Rightarrow> [] | Some c \<Rightarrow> [c])
       \<and> (data_stub (data_request_local w t) = None
            \<or> data_stub (data_request_local w t)
               = map_option DataStub (channel (data_request_local w t)))
       \<and> (bblfsh_stub (data_request_local w t) = None
            \<or> bblfsh_stub (data_request_local w t)
               = map_option ProtocolServiceStub (channel (data_request_local w t)))
       \<and> data_stub (data_request_local (snd (get_data t w)) t) = Some (fst (get_data t w))
       \<and> bblfsh_stub (data_request_local (snd (get_data t w)) t) = bblfsh_stub (data_request_local w t)
       \<and> bblfsh_stub (data_request_local (snd (get_bblfsh t w)) t) = Some (fst (get_bblfsh t w))
       \<and> data_stub (data_request_local (snd (get_bblfsh t w)) t) = data_stub (data_request_local w t)"
proof -
  have inv: "session_inv w" unfolding assms(1) by (rule session_inv_run)
  have hold: "slots_hold_registry w"
    unfolding assms(1)
    by (rule slots_hold_registry_run_from[OF assms(2) session_inv_init slots_hold_registry_init])
  show ?thesis
    using live_channels_slot[OF inv hold, of t] stubs_bound_to_slot_channel[OF inv, of t]
    by (simp only: get_data_slot get_bblfsh_slot simp_thms)
qed

theorem one_live_channel_per_thread_witness:
  "ThreadExit \<notin> snd ` set [(0, GetData), (0, CloseChannel), (0, GetBblfsh), (1, GetData)]
   \<and> live_channels 0 (run [(0, GetData), (0, CloseChannel), (0, GetBblfsh), (1, GetData)]
        (DataService_init ''localhost:10301'')) = [1]
   \<and> data_stub (data_request_local (run [(0, GetData), (0, CloseChannel), (0, GetBblfsh), (1, GetData)]
        (DataService_init ''localhost:10301'')) 0) = None
   \<and> bblfsh_stub (data_request_local (run [(0, GetData), (0, CloseChannel), (0, GetBblfsh), (1, GetData)]
        (DataService_init ''localhost:10301'')) 0) = Some (ProtocolServiceStub 1)"
proof -
  let ?cs = "[(0, GetData), (0, CloseChannel), (0, GetBblfsh), (1, GetData)]"
  let ?w = "run ?cs (DataService_init ''localhost:10301'')"
  have n: "ThreadExit \<notin> snd ` set ?cs" by simp
  have l: "data_request_local ?w 0
           = \<lparr>channel = Some 1, data_stub = None, bblfsh_stub = Some (ProtocolServiceStub 1)\<rparr>"
    by (simp add: get_data_def get_bblfsh_def get_channel_def create_channel_def
        close_channel_def Let_def threading_local_def)
  from one_live_channel_per_thread[OF refl n, where a = "''localhost:10301''" and t = 0] n l
  show ?thesis by simp
qed

section \<open>Requests after shutdown\<close>

text \<open>
  C8, as stated, fails: after \<open>shutdown\<close>, \<open>get_data\<close> returns a stub on a channel it
  creates, and a decorated call made then returns the analyzer's result.
\<close>

theorem get_data_after_shutdown_counterexample:
  "fst (get_data 0 (shutdown (snd (get_data 0 (DataService_init ''localhost:10301'')))))
     = DataStub 1
   \<and> data_request_channels
       (snd (get_data 0 (shutdown (snd (get_data 0 (DataService_init ''localhost:10301''))))))
     = [1]
   \<and> closed (snd (get_data 0 (shutdown (snd (get_data 0 (DataService_init ''localhost:10301''))))))
     = [0]
   \<and> fst (with_uasts [] id (\<lambda>stub request. \<lparr>records = [stub], failure = None\<rparr>) False
        (\<lambda>ptr config files v. (Inr (records files), v)) 0 () ()
        (shutdown (snd (get_data 0 (DataService_init ''localhost:10301'')))))
     = Inr [DataStub 1]"
proof -
  have g: "data_request_local (DataService_init ''localhost:10301'') 0 = threading_local 0"
    by simp
  note e = get_data_empty_slot[OF g]
  have s: "data_request_local (shutdown (snd (get_data 0 (DataService_init ''localhost:10301'')))) 0
           = threading_local 0"
    by simp
  note e' = get_data_empty_slot[OF s]
  have n: "next_channel (shutdown (snd (get_data 0 (DataService_init ''localhost:10301'')))) = 1"
    by (simp add: e)
  show ?thesis
    by (simp add: with_uasts_def handle_rpc_errors_def request_files_def Let_def split_beta
        e' n e)
qed

text \<open>
  C8, amended. After \<open>shutdown\<close> on a session reached by any sequence of calls, no
  operation of the session fails on account of the shutdown. \<open>get_data\<close> and \<open>get_bblfsh\<close>
  create a channel that was never opened before, register it as the only channel of the
  registry, close nothing, and return a stub bound to it; \<open>close_channel\<close> changes nothing
  and returns normally; a call of each of the six decorated methods hands the analyzer method
  the stream requested through a stub on the new channel and returns what the method
  returns or raises what it raises (an \<open>RpcError\<close> apart, which the wrapper handles).
\<close>

theorem get_data_after_shutdown:
  assumes "w = run cs (DataService_init a)"
  shows "fst (get_data t (shutdown w)) = DataStub (next_channel w)
       \<and> next_channel w \<notin> fst ` set (opened w)
       \<and> data_request_channels (snd (get_data t (shutdown w))) = [next_channel w]
       \<and> opened (snd (get_data t (shutdown w))) = opened w @ [(next_channel w, t)]
       \<and> closed (snd (get_data t (shutdown w))) = closed (shutdown w)
       \<and> data_request_local (snd (get_data t (shutdown w))) t
           = \<lparr>channel = Some (next_channel w), data_stub = Some (DataStub (next_channel w)),
              bblfsh_stub = None\<rparr>
       \<and> fst (get_bblfsh t (shutdown w)) = ProtocolServiceStub (next_channel w)
       \<and> data_request_channels (snd (get_bblfsh t (shutdown w))) = [next_channel w]
       \<and> opened (snd (get_bblfsh t (shutdown w))) = opened w @ [(next_channel w, t)]
       \<and> closed (snd (get_bblfsh t (shutdown w))) = closed (shutdown w)
       \<and> data_request_local (snd (get_bblfsh t (shutdown w))) t
           = \<lparr>channel = Some (next_channel w), data_stub = None,
              bblfsh_stub = Some (ProtocolServiceStub (next_channel w))\<rparr>
       \<and> close_channel t (shutdown w) = (Inr (), shutdown w)
       \<and> (fc p1 p2 (request_changes G cc (GetChanges (DataStub (next_channel w))) p1 p2 False True unicode)
              (snd (get_data t (shutdown w))) = (r, w1) \<and> (\<forall>e. r \<noteq> Inl (RpcError e)) \<longrightarrow>
            with_changed_uasts G cc GetChanges unicode fc t p1 p2 (shutdown w) = (r, w1))
       \<and> (fc p1 p2 (request_changes G cc (GetChanges (DataStub (next_channel w))) p1 p2 True False unicode)
              (snd (get_data t (shutdown w))) = (r, w1) \<and> (\<forall>e. r \<noteq> Inl (RpcError e)) \<longrightarrow>
            with_changed_contents G cc GetChanges unicode fc t p1 p2 (shutdown w) = (r, w1))
       \<and> (fc p1 p2 (request_changes G cc (GetChanges (DataStub (next_channel w))) p1 p2 True True unicode)
              (snd (get_data t (shutdown w))) = (r, w1) \<and> (\<forall>e. r \<noteq> Inl (RpcError e)) \<longrightarrow>
            with_changed_uasts_and_contents G cc GetChanges unicode fc t p1 p2 (shutdown w) = (r, w1))
       \<and> (ff ptr config (request_files G cf (GetFiles (DataStub (next_channel w))) ptr False True unicode)
              (snd (get_data t (shutdown w))) = (r, w1) \<and> (\<forall>e. r \<noteq> Inl (RpcError e)) \<longrightarrow>
            with_uasts G cf GetFiles unicode ff t ptr config (shutdown w) = (r, w1))
       \<and> (ff ptr config (request_files G cf (GetFiles (DataStub (next_channel w))) ptr True False unicode)
              (snd (get_data t (shutdown w))) = (r, w1) \<and> (\<forall>e. r \<noteq> Inl (RpcError e)) \<longrightarrow>
            with_contents G cf GetFiles unicode ff t ptr config (shutdown w) = (r, w1))
       \<and> (ff ptr config (request_files G cf (GetFiles (DataStub (next_channel w))) ptr True True unicode)
              (snd (get_data t (shutdown w))) = (r, w1) \<and> (\<forall>e. r \<noteq> Inl (RpcError e)) \<longrightarrow>
            with_uasts_and_contents G cf GetFiles unicode ff t ptr config (shutdown w) = (r, w1))"
proof -
  have inv: "session_inv w" unfolding assms by (rule session_inv_run)
  have s: "data_request_local (shutdown w) t = threading_local t" by simp
  note e = get_data_empty_slot[OF s]
  note b = get_bblfsh_empty_slot[OF s]
  have stub: "fst (get_data t (shutdown w)) = DataStub (next_channel w)" by (simp add: e)
  have data: "fst (get_data t (shutdown w)) = DataStub (next_channel w)
       \<and> next_channel w \<notin> fst ` set (opened w)
       \<and> data_request_channels (snd (get_data t (shutdown w))) = [next_channel w]
       \<and> opened (snd (get_data t (shutdown w))) = opened w @ [(next_channel w, t)]
       \<and> closed (snd (get_data t (shutdown w))) = closed (shutdown w)
       \<and> data_request_local (snd (get_data t (shutdown w))) t
           = \<lparr>channel = Some (next_channel w), data_stub = Some (DataStub (next_channel w)),
              bblfsh_stub = None\<rparr>"
    using fresh_channel(1)[OF inv] by (simp add: e)
  have bblfsh: "fst (get_bblfsh t (shutdown w)) = ProtocolServiceStub (next_channel w)
       \<and> data_request_channels (snd (get_bblfsh t (shutdown w))) = [next_channel w]
       \<and> opened (snd (get_bblfsh t (shutdown w))) = opened w @ [(next_channel w, t)]
       \<and> closed (snd (get_bblfsh t (shutdown w))) = closed (shutdown w)
       \<and> data_request_local (snd (get_bblfsh t (shutdown w))) t
           = \<lparr>channel = Some (next_channel w), data_stub = None,
              bblfsh_stub = Some (ProtocolServiceStub (next_channel w))\<rparr>"
    by (simp add: b)
  have close: "close_channel t (shutdown w) = (Inr (), shutdown w)"
    by (rule close_channel_None) simp
  have d1: "fc p1 p2 (request_changes G cc (GetChanges (DataStub (next_channel w))) p1 p2 False True unicode)
              (snd (get_data t (shutdown w))) = (r, w1) \<and> (\<forall>e. r \<noteq> Inl (RpcError e)) \<longrightarrow>
            with_changed_uasts G cc GetChanges unicode fc t p1 p2 (shutdown w) = (r, w1)"
    unfolding with_changed_uasts_def
    by (intro impI handle_rpc_errors_other) (simp_all add: split_beta Let_def stub)
  have d2: "fc p1 p2 (request_changes G cc (GetChanges (DataStub (next_channel w))) p1 p2 True False unicode)
              (snd (get_data t (shutdown w))) = (r, w1) \<and> (\<forall>e. r \<noteq> Inl (RpcError e)) \<longrightarrow>
            with_changed_contents G cc GetChanges unicode fc t p1 p2 (shutdown w) = (r, w1)"
    unfolding with_changed_contents_def
    by (intro impI handle_rpc_errors_other) (simp_all add: split_beta Let_def stub)
  have d3: "fc p1 p2 (request_changes G cc (GetChanges (DataStub (next_channel w))) p1 p2 True True unicode)
              (snd (get_data t (shutdown w))) = (r, w1) \<and> (\<forall>e. r \<noteq> Inl (RpcError e)) \<longrightarrow>
            with_changed_uasts_and_contents G cc GetChanges unicode fc t p1 p2 (shutdown w) = (r, w1)"
    unfolding with_changed_uasts_and_contents_def
    by (intro impI handle_rpc_errors_other) (simp_all add: split_beta Let_def stub)
  have d4: "ff ptr config (request_files G cf (GetFiles (DataStub (next_channel w))) ptr False True unicode)
              (snd (get_data t (shutdown w))) = (r, w1) \<and> (\<forall>e. r \<noteq> Inl (RpcError e)) \<longrightarrow>
            with_uasts G cf GetFiles unicode ff t ptr config (shutdown w) = (r, w1)"
    unfolding with_uasts_def
    by (intro impI handle_rpc_errors_other) (simp_all add: split_beta Let_def stub)
  have d5: "ff ptr config (request_files G cf (GetFiles (DataStub (next_channel w))) ptr True False unicode)
              (snd (get_data t (shutdown w))) = (r, w1) \<and> (\<forall>e. r \<noteq> Inl (RpcError e)) \<longrightarrow>
            with_contents G cf GetFiles unicode ff t ptr config (shutdown w) = (r, w1)"
    unfolding with_contents_def
    by (intro impI handle_rpc_errors_other) (simp_all add: split_beta Let_def stub)
  have d6: "ff ptr config (request_files G cf (GetFiles (DataStub (next_channel w))) ptr True True unicode)
              (snd (get_data t (shutdown w))) = (r, w1) \<and> (\<forall>e. r \<noteq> Inl (RpcError e)) \<longrightarrow>
            with_uasts_and_contents G cf GetFiles unicode ff t ptr config (shutdown w) = (r, w1)"
    unfolding with_uasts_and_contents_def
    by (intro impI handle_rpc_errors_other) (simp_all add: split_beta Let_def stub)
  from data bblfsh close d1 d2 d3 d4 d5 d6 show ?thesis by blast
qed

theorem get_data_after_shutdown_witness:
  "fst (get_data 0 (shutdown (run [(0, GetData), (1, GetData)] (DataService_init ''localhost:10301''))))
     = DataStub 2
   \<and> data_request_channels
       (snd (get_data 0 (shutdown (run [(0, GetData), (1, GetData)] (DataService_init ''localhost:10301'')))))
     = [2]
   \<and> closed (snd (get_data 0 (shutdown (run [(0, GetData), (1, GetData)] (DataService_init ''localhost:10301'')))))
     = [0, 1]
   \<and> fst (get_bblfsh 1 (shutdown (run [(0, GetData), (1, GetData)] (DataService_init ''localhost:10301''))))
     = ProtocolServiceStub 2
   \<and> fst (close_channel 0 (shutdown (run [(0, GetData), (1, GetData)] (DataService_init ''localhost:10301''))))
     = Inr ()"
proof -
  let ?w = "run [(0, GetData), (1, GetData)] (DataService_init ''localhost:10301'')"
  have n: "next_channel ?w = 2" "closed ?w = []" "data_request_channels ?w = [0, 1]"
    by (simp_all add: get_data_def get_channel_def create_channel_def Let_def threading_local_def)
  note T0 = get_data_after_shutdown[OF refl, where cs = "[(0, GetData), (1, GetData)]"
      and a = "''localhost:10301''" and t = 0]
  note T1 = get_data_after_shutdown[OF refl, where cs = "[(0, GetData), (1, GetData)]"
      and a = "''localhost:10301''" and t = 1]
  have a: "fst (get_data 0 (shutdown ?w)) = DataStub 2"
    using T0[THEN conjunct1] n(1) by simp
  have b: "data_request_channels (snd (get_data 0 (shutdown ?w))) = [2]"
    using T0[THEN conjunct2, THEN conjunct2, THEN conjunct1] n(1) by simp
  have c: "closed (snd (get_data 0 (shutdown ?w))) = [0, 1]"
    using T0[THEN conjunct2, THEN conjunct2, THEN conjunct2, THEN conjunct2, THEN conjunct1] n
    by simp
  have d: "fst (get_bblfsh 1 (shutdown ?w)) = ProtocolServiceStub 2"
    using T1[THEN conjunct2, THEN conjunct2, THEN conjunct2, THEN conjunct2, THEN conjunct2,
        THEN conjunct2, THEN conjunct1] n(1) by simp
  have e: "fst (close_channel 0 (shutdown ?w)) = Inr ()"
    by (simp add: close_channel_None)
  show ?thesis by (intro conjI a b c d e)
qed

section \<open>The version check reports every unmet requirement\<close>

text \<open>
  C6, as stated, fails for an answer of the parse service with a driver version that does
  not parse: the check raises \<open>InvalidVersion\<close> for it, here while the only requirement is
  met.
\<close>

theorem check_raises_version_parse_error_counterexample:
  "specifier_contains example_packaging (''==1.0.0'', ''=='', [1, 0, 0]) (''1.0.0'', [1, 0, 0])
   \<and> fst (check_bblfsh_driver_versions example_packaging
          (\<lambda>stub. Inr [\<lparr>language = ''bash'', version = ''dev-1a2b3c''\<rparr>,
                        \<lparr>language = ''go'', version = ''1.0.0''\<rparr>]) 0
          [''go==1.0.0''] (DataService_init ''localhost:10301''))
     = Inl (InvalidVersion ''dev-1a2b3c'')"
  by (simp add: check_bblfsh_driver_versions_def example_packaging_def split_beta)

text \<open>
  C6, amended. When the parse service answers and every requirement string is well formed:
  if every reported driver version parses, \<open>check_bblfsh_driver_versions\<close> raises if and
  only if some requirement is unmet against the installed versions (for each language, the
  version of the last driver listed), and the one \<open>UnsatisfiedDriverVersionError\<close> it raises
  lists every unmet requirement, in the order of the requirements: each missing language and
  each installed version outside its range, not only the first; when every requirement is
  met it returns normally. If a reported version does not parse, the parse error of such a
  version is raised instead.
\<close>

theorem check_reports_every_unmet_requirement:
  assumes "SupportedLanguages (fst (get_bblfsh t w)) = Inr languages"
    and "\<forall>r \<in> set versions. \<exists>req. Requirement P r = Inr req"
  shows "((\<forall>d \<in> set languages. \<exists>v. Version P (version d) = Inr v) \<longrightarrow>
            fst (check_bblfsh_driver_versions P SupportedLanguages t versions w)
            = (if \<exists>r \<in> set versions. unmet P (installed P languages) r
               then Inl (UnsatisfiedDriverVersionError
                      ([ArgList (map (mismatch_of P (installed P languages))
                                  (filter (unmet P (installed P languages)) versions))]
                       @ map ArgPair (map (mismatch_of P (installed P languages))
                                  (filter (unmet P (installed P languages)) versions))))
               else Inr ()))
       \<and> ((\<exists>d \<in> set languages. \<exists>e. Version P (version d) = Inl e) \<longrightarrow>
            (\<exists>d \<in> set languages. \<exists>e. Version P (version d) = Inl e
               \<and> fst (check_bblfsh_driver_versions P SupportedLanguages t versions w) = Inl e))"
proof (intro conjI impI)
  assume parse: "\<forall>d \<in> set languages. \<exists>v. Version P (version d) = Inr v"
  have ex: "existing_versions (Version P) languages Map.empty = Inr (installed P languages)"
    by (simp add: existing_versions_installed[OF parse] installed_def fun_eq_iff
        split: list.splits)
  have c: "collect_mismatched P (installed P languages) versions []
           = Inr (map (mismatch_of P (installed P languages))
                    (filter (unmet P (installed P languages)) versions))"
    using collect_mismatched_eq[OF assms(2), of "installed P languages" "[]"] by simp
  have e: "(filter (unmet P (installed P languages)) versions \<noteq> [])
           = (\<exists>r \<in> set versions. unmet P (installed P languages) r)"
    by (auto simp: filter_empty_conv)
  show "fst (check_bblfsh_driver_versions P SupportedLanguages t versions w)
            = (if \<exists>r \<in> set versions. unmet P (installed P languages) r
               then Inl (UnsatisfiedDriverVersionError
                      ([ArgList (map (mismatch_of P (installed P languages))
                                  (filter (unmet P (installed P languages)) versions))]
                       @ map ArgPair (map (mismatch_of P (installed P languages))
                                  (filter (unmet P (installed P languages)) versions))))
               else Inr ())"
    using e
    by (simp add: check_bblfsh_driver_versions_def split_beta assms(1) ex c
        UnsatisfiedDriverVersionError_init_def)
next
  assume "\<exists>d \<in> set languages. \<exists>e. Version P (version d) = Inl e"
  from existing_versions_invalid[OF this, of Map.empty]
  obtain d e where d: "d \<in> set languages" "Version P (version d) = Inl e"
    and x: "existing_versions (Version P) languages Map.empty = Inl e"
    by blast
  have "fst (check_bblfsh_driver_versions P SupportedLanguages t versions w) = Inl e"
    by (simp add: check_bblfsh_driver_versions_def split_beta assms(1) x)
  with d show "\<exists>d \<in> set languages. \<exists>e. Version P (version d) = Inl e
               \<and> fst (check_bblfsh_driver_versions P SupportedLanguages t versions w) = Inl e"
    by blast
qed

theorem check_reports_every_unmet_requirement_witness:
  "fst (check_bblfsh_driver_versions example_packaging
          (\<lambda>stub. Inr [\<lparr>language = ''python'', version = ''1.0.0''\<rparr>,
                        \<lparr>language = ''python'', version = ''1.9.0''\<rparr>]) 0
          [''python>=2.0.0'', ''go==1.0.0''] (DataService_init ''localhost:10301''))
   = Inl (UnsatisfiedDriverVersionError
       [ArgList [(''python'', ''1.9.0 does not satisfy >=2.0.0''),
                 (''go'', ''not installed, but required ==1.0.0'')],
        ArgPair (''python'', ''1.9.0 does not satisfy >=2.0.0''),
        ArgPair (''go'', ''not installed, but required ==1.0.0'')])"
proof -
  let ?ls = "[\<lparr>language = ''python'', version = ''1.0.0''\<rparr>,
              \<lparr>language = ''python'', version = ''1.9.0''\<rparr>]"
  let ?SL = "\<lambda>stub :: bblfsh_stub. Inr ?ls :: exn + driver list"
  have a1: "?SL (fst (get_bblfsh 0 (DataService_init ''localhost:10301''))) = Inr ?ls"
    by simp
  have r1: "Requirement example_packaging ''python>=2.0.0''
            = Inr (''python'', (''>=2.0.0'', ''>='', [2, 0, 0]))"
    and r2: "Requirement example_packaging ''go==1.0.0''
            = Inr (''go'', (''==1.0.0'', ''=='', [1, 0, 0]))"
    by (simp_all add: example_packaging_def)
  have a2: "\<forall>r \<in> set [''python>=2.0.0'', ''go==1.0.0''].
              \<exists>req. Requirement example_packaging r = Inr req"
    using r1 r2 by simp
  have p: "\<forall>d \<in> set ?ls. \<exists>v. Version example_packaging (version d) = Inr v"
    by (simp add: example_packaging_def)
  have i1: "installed example_packaging ?ls ''python'' = Some (''1.9.0'', [1, 9, 0])"
    and i2: "installed example_packaging ?ls ''go'' = None"
    by (simp_all add: installed_def) (simp add: example_packaging_def)
  have u1: "unmet example_packaging (installed example_packaging ?ls) ''python>=2.0.0''"
    and u2: "unmet example_packaging (installed example_packaging ?ls) ''go==1.0.0''"
    by (simp_all add: unmet_def r1 r2 i1 i2) (simp add: example_packaging_def)
  have m1: "mismatch_of example_packaging (installed example_packaging ?ls) ''python>=2.0.0''
            = (''python'', ''1.9.0 does not satisfy >=2.0.0'')"
    and m2: "mismatch_of example_packaging (installed example_packaging ?ls) ''go==1.0.0''
            = (''go'', ''not installed, but required ==1.0.0'')"
    by (simp_all add: mismatch_of_def r1 r2 i1 i2) (simp_all add: example_packaging_def)
  note T = check_reports_every_unmet_requirement[of ?SL 0 "DataService_init ''localhost:10301''",
      OF a1 a2, THEN conjunct1, THEN mp, OF p]
  have f: "filter (unmet example_packaging (installed example_packaging ?ls))
             [''python>=2.0.0'', ''go==1.0.0''] = [''python>=2.0.0'', ''go==1.0.0'']"
    using u1 u2 by (simp only: filter.simps if_True)
  have ex: "\<exists>r \<in> set [''python>=2.0.0'', ''go==1.0.0''].
              unmet example_packaging (installed example_packaging ?ls) r"
    using u1 by (simp only: list.set(2) bex_simps insert_iff simp_thms)
  show ?thesis
    unfolding T by (simp only: ex f if_True list.map m1 m2 append.simps)
qed

section \<open>Unicode conversion of a stream\<close>

text \<open>
  C7. With the \<open>unicode\<close> flag on, the records that \<open>request_files\<close> and
  \<open>request_changes\<close> yield are the converter applied to each record of the service's
  stream, in the service's order, whatever the length of the stream, and the stream ends as
  the service's does; with the flag off they return the service's stream itself.
\<close>

theorem unicode_conversion_elementwise:
  "records (request_files G cf GetFiles ptr contents uast True)
     = map cf (records (GetFiles (files_request_of G ptr contents uast)))
   \<and> failure (request_files G cf GetFiles ptr contents uast True)
     = failure (GetFiles (files_request_of G ptr contents uast))
   \<and> request_files G cf GetFiles ptr contents uast False
     = GetFiles (files_request_of G ptr contents uast)
   \<and> records (request_changes G cc GetChanges p1 p2 contents uast True)
     = map cc (records (GetChanges (changes_request_of G p1 p2 contents uast)))
   \<and> failure (request_changes G cc GetChanges p1 p2 contents uast True)
     = failure (GetChanges (changes_request_of G p1 p2 contents uast))
   \<and> request_changes G cc GetChanges p1 p2 contents uast False
     = GetChanges (changes_request_of G p1 p2 contents uast)"
  by (simp add: request_files_def request_changes_def map_stream_def Let_def)

section \<open>\<open>review\<close> and \<open>push\<close> outside the \<open>with\<close> block\<close>

text \<open>
  C10. On a context manager as \<open>__init__\<close> leaves it, or as \<open>__exit__\<close> leaves it,
  \<open>review\<close> and \<open>push\<close> raise \<open>AttributeError\<close> and leave the state as it is: no SDK
  command is issued, whatever the SDK would have answered.
\<close>

theorem review_push_outside_with:
  assumes "s = AnalyzerContextManager_init found_port init_flag address \<or> s = snd (cm_exit s0)"
  shows "review sdk args s
           = (Inl (AttributeError ''AnalyzerContextManager.review() is available only inside `with`''), s)
       \<and> push sdk args s
           = (Inl (AttributeError
                ''AnalyzerContextManager.push() is available only inside `with` statement''), s)"
proof -
  have "lookout_sdk s = None"
    using assms
    by (auto simp: AnalyzerContextManager_init_def cm_exit_def Let_def split: option.splits)
  then show ?thesis by (simp add: review_def push_def)
qed

theorem review_push_outside_with_witness:
  "fst (review (\<lambda>c. Inr c) \<lparr>fr = ''a'', to = ''b'', git_dir = ''.'', bblfsh = None,
          log_level = None, config_json = None :: unit option\<rparr>
        (snd (cm_exit (cm_enter (\<lambda>p. True) 2 (AnalyzerContextManager_init 1 True ''localhost:10301'')))))
     = Inl (AttributeError ''AnalyzerContextManager.review() is available only inside `with`'')
   \<and> events (snd (push (\<lambda>c. Inr c) \<lparr>fr = ''a'', to = ''b'', git_dir = ''.'', bblfsh = None,
          log_level = None, config_json = None :: unit option\<rparr>
        (snd (cm_exit (cm_enter (\<lambda>p. True) 2 (AnalyzerContextManager_init 1 True ''localhost:10301''))))))
     = [ModelRepoCreate, ModelRepoInit, ListenerStart 1, ListenerStop, ModelRepoShutdown]
   \<and> fst (review (\<lambda>c. Inr c) \<lparr>fr = ''a'', to = ''b'', git_dir = ''.'', bblfsh = None,
          log_level = None, config_json = None :: unit option\<rparr>
        (cm_enter (\<lambda>p. True) 2 (AnalyzerContextManager_init 1 True ''localhost:10301'')))
     = Inr (Review \<lparr>fr = ''a'', to = ''b'', git_dir = ''.'', bblfsh = None,
          log_level = None, config_json = None\<rparr> 1)"
proof -
  let ?s0 = "cm_enter (\<lambda>p. True) 2 (AnalyzerContextManager_init 1 True ''localhost:10301'')
               :: unit context_manager"
  have ev: "events (snd (cm_exit ?s0))
            = [ModelRepoCreate, ModelRepoInit, ListenerStart 1, ListenerStop, ModelRepoShutdown]"
    by (simp add: cm_exit_def cm_enter_def AnalyzerContextManager_init_def Let_def)
  have inside: "lookout_sdk ?s0 = Some LookoutSDK" "port ?s0 = 1"
    by (simp_all add: cm_enter_def AnalyzerContextManager_init_def Let_def)
  from review_push_outside_with[where s = "snd (cm_exit ?s0)" and ?s0.0 = ?s0, of _ _ _ "\<lambda>c. Inr c"] ev inside
  show ?thesis
    by (simp add: review_def del: One_nat_def)
qed

section \<open>The registry under calls of several threads\<close>

text \<open>
  C9, as stated, fails: no lock protects the registry. When another thread's \<open>shutdown\<close>
  runs between the read of the slot in \<open>close_channel\<close> and the statements after it, the
  removal from the registry raises \<open>ValueError\<close>, which neither order of the two whole
  calls does.
\<close>

theorem registry_race_counterexample:
  "close_channel_read 0 (run [(0, GetData)] (DataService_init ''localhost:10301'')) = Some 0
   \<and> close_channel_rest 0
        (close_channel_read 0 (run [(0, GetData)] (DataService_init ''localhost:10301'')))
        (shutdown (run [(0, GetData)] (DataService_init ''localhost:10301'')))
       = (Inl ValueError, shutdown (run [(0, GetData)] (DataService_init ''localhost:10301'')))
   \<and> fst (close_channel 0 (shutdown (run [(0, GetData)] (DataService_init ''localhost:10301''))))
       = Inr ()
   \<and> fst (close_channel 0 (run [(0, GetData)] (DataService_init ''localhost:10301''))) = Inr ()"
proof -
  let ?w = "run [(0, GetData)] (DataService_init ''localhost:10301'')"
  have g: "data_request_local (DataService_init ''localhost:10301'') 0 = threading_local 0"
    by simp
  note e = get_data_empty_slot[OF g]
  have r: "close_channel_read 0 ?w = Some 0"
    by (simp add: close_channel_read_def e)
  have race: "close_channel_rest 0 (close_channel_read 0 ?w) (shutdown ?w)
              = (Inl ValueError, shutdown ?w)"
    unfolding r by (rule close_channel_rest_after_shutdown)
  have s1: "fst (close_channel 0 (shutdown ?w)) = Inr ()"
    by (simp add: close_channel_None)
  have s2: "fst (close_channel 0 ?w) = Inr ()"
    by (rule close_channel_reached(1)[OF session_inv_run_from[OF session_inv_init]])
  show ?thesis by (intro conjI r race s1 s2)
qed

text \<open>
  C9, amended. Additions to and removals from the registry are not serialized by a lock.
  When the calls of the threads run one after another, each to its end, the registry holds
  exactly the channels opened and not closed since, each once, no channel is closed twice,
  and \<open>close_channel\<close>, which is its read of the slot followed by the rest, returns
  normally; a \<open>shutdown\<close> between that read, when it finds a channel, and the rest makes
  \<open>close_channel\<close> raise \<open>ValueError\<close>.
\<close>

theorem registry_consistent_without_interleaving:
  assumes "w = run cs (DataService_init a)"
  shows "distinct (data_request_channels w)
       \<and> set (data_request_channels w) = fst ` set (opened w) - set (closed w)
       \<and> distinct (closed w)
       \<and> close_channel t w = close_channel_rest t (close_channel_read t w) w
       \<and> fst (close_channel t w) = Inr ()
       \<and> (close_channel_read t w = Some c \<longrightarrow>
            close_channel_rest t (close_channel_read t w) (shutdown w)
            = (Inl ValueError, shutdown w))"
proof -
  have inv: "session_inv w" unfolding assms by (rule session_inv_run)
  note d = session_invD[OF inv]
  have reg: "set (data_request_channels w) = fst ` set (opened w) - set (closed w)"
    using d(5) d(6) by auto
  have race: "close_channel_read t w = Some c \<longrightarrow>
            close_channel_rest t (close_channel_read t w) (shutdown w)
            = (Inl ValueError, shutdown w)"
    by (simp add: close_channel_rest_after_shutdown)
  from d(3) reg d(4) close_channel_split[of t w] close_channel_reached(1)[OF inv, of t] race
  show ?thesis by (intro conjI)
qed

theorem registry_consistent_without_interleaving_witness:
  "data_request_channels (run [(0, GetData), (1, GetData), (0, CloseChannel)]
      (DataService_init ''localhost:10301'')) = [1]
   \<and> closed (run [(0, GetData), (1, GetData), (0, CloseChannel)]
      (DataService_init ''localhost:10301'')) = [0]
   \<and> fst (close_channel 1 (run [(0, GetData), (1, GetData), (0, CloseChannel)]
      (DataService_init ''localhost:10301''))) = Inr ()
   \<and> close_channel_rest 1 (Some 1) (shutdown (run [(0, GetData), (1, GetData), (0, CloseChannel)]
      (DataService_init ''localhost:10301'')))
     = (Inl ValueError, shutdown (run [(0, GetData), (1, GetData), (0, CloseChannel)]
      (DataService_init ''localhost:10301'')))"
proof -
  let ?cs = "[(0, GetData), (1, GetData), (0, CloseChannel)]"
  let ?w = "run ?cs (DataService_init ''localhost:10301'')"
  have c: "closed ?w = [0]" and r: "data_request_channels ?w = [1]"
    and l: "close_channel_read 1 ?w = Some 1"
    by (simp_all add: get_data_def get_channel_def create_channel_def close_channel_read_def
        close_channel_def Let_def threading_local_def)
  note T = registry_consistent_without_interleaving[OF refl, where cs = ?cs
      and a = "''localhost:10301''" and t = 1 and c = 1]
  have ok: "fst (close_channel 1 ?w) = Inr ()"
    by (rule T[THEN conjunct2, THEN conjunct2, THEN conjunct2, THEN conjunct2, THEN conjunct1])
  have race: "close_channel_rest 1 (Some 1) (shutdown ?w) = (Inl ValueError, shutdown ?w)"
    using T[THEN conjunct2, THEN conjunct2, THEN conjunct2, THEN conjunct2, THEN conjunct2,
        THEN mp, OF l] unfolding l .
  show ?thesis by (intro conjI r c ok race)
qed

end
